theory Spec2Isabelle
  imports Main "HOL-Library.Sublist" "HOL-Library.AList"
begin

section \<open>The release build script of CodeSolver Pro\<close>

text \<open>
  The development embeds \<^verbatim>\<open>build.js\<close>: the platform registry with its two
  source transformations, the file system helpers, the processing of one module, the
  generation of the release document, the build of one platform and the entry point.
  Source text is a list of 8-bit characters; the tokens the script looks for are ASCII.
\<close>

subsection \<open>The Firefox source transformation\<close>

text \<open>
  \<^verbatim>\<open>code.replace(/chrome\./g, 'browser.')\<close> scans the text from the left; at
  every position where the seven characters \<^verbatim>\<open>chrome.\<close> start it emits
  \<^verbatim>\<open>browser.\<close> and continues behind the match, otherwise it copies one
  character. The replacement text has no \<^verbatim>\<open>$\<close> pattern.
\<close>

function replace_chrome :: "string \<Rightarrow> string" where
  "replace_chrome [] = []"
| "replace_chrome (c # cs) =
     (if prefix ''chrome.'' (c # cs)
      then ''browser.'' @ replace_chrome (drop 7 (c # cs))
      else c # replace_chrome cs)"
  by pat_completeness auto
termination
  by (relation "measure length") auto

text \<open>The template literal \<^verbatim>\<open>polyfill\<close>, line breaks included.\<close>

definition polyfill :: string where
  "polyfill =
     ''\<newline>// Firefox compatibility\<newline>if (typeof browser === 'undefined') {\<newline>  var browser = chrome;\<newline>}\<newline>''"

definition firefox_apiTransform :: "string \<Rightarrow> string" where
  "firefox_apiTransform code = (let transformed = replace_chrome code in polyfill @ transformed)"

definition chrome_apiTransform :: "string \<Rightarrow> string" where
  "chrome_apiTransform code = code"

text \<open>
  The shim read as the statement it is: a test \<^verbatim>\<open>typeof g === 'undefined'\<close>
  guarding one declaration \<^verbatim>\<open>var d = i\<close>. \<open>render_shim\<close> prints such a
  statement in the layout of the template literal, and \<open>firefox_shim\<close> is the one
  the script carries (lemma \<open>render_firefox_shim\<close> below).
\<close>

record shim =
  guard :: string
  declared :: string
  initialiser :: string

definition render_shim :: "shim \<Rightarrow> string" where
  "render_shim sh =
     ''\<newline>// Firefox compatibility\<newline>if (typeof '' @ guard sh @ '' === 'undefined') {\<newline>  var ''
       @ declared sh @ '' = '' @ initialiser sh @ '';\<newline>}\<newline>''"

definition firefox_shim :: shim where
  "firefox_shim = \<lparr>guard = ''browser'', declared = ''browser'', initialiser = ''chrome''\<rparr>"

text \<open>
  The namespace token the regular expression looks for and the one it writes, without
  the dot that follows both.
\<close>

definition legacy_token :: string where
  "legacy_token = ''chrome''"

definition modern_token :: string where
  "modern_token = ''browser''"

text \<open>
  Running the shim in an environment of global bindings (\<open>None\<close>: the identifier has
  no defined value). Reading an initialiser that is not bound raises a reference error.
\<close>

datatype js_error = ReferenceError string

definition run_shim :: "shim \<Rightarrow> (string \<rightharpoonup> 'v) \<Rightarrow> js_error + (string \<rightharpoonup> 'v)" where
  "run_shim sh env =
     (if env (guard sh) = None
      then (case env (initialiser sh) of
              None \<Rightarrow> Inl (ReferenceError (initialiser sh))
            | Some v \<Rightarrow> Inr (env(declared sh \<mapsto> v)))
      else Inr env)"

subsection \<open>Errors, console output and the build's effects\<close>

type_synonym path = "string list"

text \<open>
  Paths are lists of components below the directory of the script (\<^verbatim>\<open>__dirname\<close>);
  \<^verbatim>\<open>path.join(a, 'js', f)\<close> is \<open>a @ [''js'', f]\<close>. The errors are those the
  script can meet: the error codes of the file system calls, the \<^verbatim>\<open>TypeError\<close> of
  reading a property of \<^verbatim>\<open>undefined\<close> or of giving \<^verbatim>\<open>undefined\<close> to a
  file system call as its path, and the failures of the two protection passes.
\<close>

datatype error =
    ENOENT path
  | ENOTDIR path
  | EISDIR path
  | EEXIST path
  | EACCES path
  | TypeError string
  | MinifyError string
  | ObfuscationError string

datatype stream = Stdout | Stderr

text \<open>
  A printed line is its text, or a line that renders an error object
  (\<^verbatim>\<open>error.message\<close> behind \<^verbatim>\<open>Build failed:\<close>, and \<^verbatim>\<open>error.stack\<close>).
\<close>

datatype line = Text string | Build_failed error | Stack error

type_synonym printed = "(stream \<times> line) list"

datatype node = File string | Dir "(string \<times> node) list"

text \<open>
  The file system: the entries of the script's directory, each a file with its text or a
  directory with its entries, and the paths on which the operating system refuses every
  change (no write, no creation, no removal). Everything a run prints is returned beside
  the result.
\<close>

record fs =
  entries :: "(string \<times> node) list"
  denied :: "path list"

type_synonym 'a io = "fs \<Rightarrow> (error + 'a) \<times> fs \<times> printed"

definition io_return :: "'a \<Rightarrow> 'a io" where
  "io_return x s = (Inr x, s, [])"

definition io_throw :: "error \<Rightarrow> 'a io" where
  "io_throw e s = (Inl e, s, [])"

text \<open>\<^verbatim>\<open>const x = await m; ...\<close>: an error of \<open>m\<close> ends the sequence.\<close>

definition io_bind :: "'a io \<Rightarrow> ('a \<Rightarrow> 'b io) \<Rightarrow> 'b io" where
  "io_bind m f s =
     (case m s of
        (Inl e, s1, o1) \<Rightarrow> (Inl e, s1, o1)
      | (Inr x, s1, o1) \<Rightarrow> (case f x s1 of (r, s2, o2) \<Rightarrow> (r, s2, o1 @ o2)))"

text \<open>\<^verbatim>\<open>try { m } catch (err) { h }\<close>\<close>

definition io_catch :: "'a io \<Rightarrow> (error \<Rightarrow> 'a io) \<Rightarrow> 'a io" where
  "io_catch m h s =
     (case m s of
        (Inl e, s1, o1) \<Rightarrow> (case h e s1 of (r, s2, o2) \<Rightarrow> (r, s2, o1 @ o2))
      | (Inr x, s1, o1) \<Rightarrow> (Inr x, s1, o1))"

text \<open>A block of statements, and a \<^verbatim>\<open>for (const x of xs)\<close> loop.\<close>

fun io_seq :: "unit io list \<Rightarrow> unit io" where
  "io_seq [] = io_return ()"
| "io_seq (m # ms) = io_bind m (\<lambda>_. io_seq ms)"

fun for_each :: "('a \<Rightarrow> unit io) \<Rightarrow> 'a list \<Rightarrow> unit io" where
  "for_each f [] = io_return ()"
| "for_each f (x # xs) = io_bind (f x) (\<lambda>_. for_each f xs)"

definition console_log :: "string \<Rightarrow> unit io" where
  "console_log msg s = (Inr (), s, [(Stdout, Text msg)])"

definition console_error :: "line \<Rightarrow> unit io" where
  "console_error l s = (Inr (), s, [(Stderr, l)])"

subsection \<open>The file system calls\<close>

text \<open>\<open>lookup p es\<close> is the node at \<open>p\<close>, if every component resolves.\<close>

fun lookup :: "path \<Rightarrow> (string \<times> node) list \<Rightarrow> node option" where
  "lookup [] es = Some (Dir es)"
| "lookup (x # xs) es =
     (case map_of es x of
        None \<Rightarrow> None
      | Some (File c) \<Rightarrow> (if xs = [] then Some (File c) else None)
      | Some (Dir sub) \<Rightarrow> lookup xs sub)"

text \<open>A proper prefix of the path is a file: the calls answer \<^verbatim>\<open>ENOTDIR\<close>.\<close>

fun through_file :: "path \<Rightarrow> (string \<times> node) list \<Rightarrow> bool" where
  "through_file [] es = False"
| "through_file (x # xs) es =
     (case map_of es x of
        None \<Rightarrow> False
      | Some (File c) \<Rightarrow> xs \<noteq> []
      | Some (Dir sub) \<Rightarrow> through_file xs sub)"

definition missing :: "path \<Rightarrow> (string \<times> node) list \<Rightarrow> error" where
  "missing p es = (if through_file p es then ENOTDIR p else ENOENT p)"

text \<open>
  \<open>put p n es\<close> creates or replaces the entry at \<open>p\<close>; its parent must be a directory.
  \<open>del p es\<close> removes the entry at \<open>p\<close> with everything below it. \<open>mkdirp p es\<close>
  creates the directory \<open>p\<close> and every missing ancestor, and has no result when a
  component is a file.
\<close>

fun put :: "path \<Rightarrow> node \<Rightarrow> (string \<times> node) list \<Rightarrow> (string \<times> node) list option" where
  "put [] n es = None"
| "put [x] n es = Some (AList.update x n es)"
| "put (x # y # ys) n es =
     (case map_of es x of
        Some (Dir sub) \<Rightarrow> map_option (\<lambda>sub'. AList.update x (Dir sub') es) (put (y # ys) n sub)
      | _ \<Rightarrow> None)"

fun del :: "path \<Rightarrow> (string \<times> node) list \<Rightarrow> (string \<times> node) list" where
  "del [] es = es"
| "del [x] es = AList.delete x es"
| "del (x # y # ys) es =
     (case map_of es x of
        Some (Dir sub) \<Rightarrow> AList.update x (Dir (del (y # ys) sub)) es
      | _ \<Rightarrow> es)"

fun mkdirp :: "path \<Rightarrow> (string \<times> node) list \<Rightarrow> (string \<times> node) list option" where
  "mkdirp [] es = Some es"
| "mkdirp (x # xs) es =
     (case map_of es x of
        None \<Rightarrow> map_option (\<lambda>sub'. AList.update x (Dir sub') es) (mkdirp xs [])
      | Some (File c) \<Rightarrow> None
      | Some (Dir sub) \<Rightarrow> map_option (\<lambda>sub'. AList.update x (Dir sub') es) (mkdirp xs sub))"

text \<open>\<^verbatim>\<open>fs.access(p)\<close>\<close>

definition fs_access :: "path \<Rightarrow> unit io" where
  "fs_access p s =
     (case lookup p (entries s) of
        None \<Rightarrow> io_throw (missing p (entries s)) s
      | Some n \<Rightarrow> io_return () s)"

text \<open>
  \<^verbatim>\<open>fs.mkdir(p, { recursive: true })\<close>: no error when the directory exists;
  \<^verbatim>\<open>EEXIST\<close> when \<open>p\<close> is a file; \<^verbatim>\<open>EACCES\<close> when a directory it would have
  to create is refused (\<open>refused_above\<close> finds it).
\<close>

definition refused_above :: "path \<Rightarrow> fs \<Rightarrow> path option" where
  "refused_above p s = find (\<lambda>q. prefix q p \<and> lookup q (entries s) = None) (denied s)"

definition fs_mkdir :: "path \<Rightarrow> unit io" where
  "fs_mkdir p s =
     (case lookup p (entries s) of
        Some (File c) \<Rightarrow> io_throw (EEXIST p) s
      | Some (Dir sub) \<Rightarrow> io_return () s
      | None \<Rightarrow>
          (case refused_above p s of
             Some q \<Rightarrow> io_throw (EACCES q) s
           | None \<Rightarrow>
               (case mkdirp p (entries s) of
                  None \<Rightarrow> io_throw (ENOTDIR p) s
                | Some es \<Rightarrow> (Inr (), s\<lparr>entries := es\<rparr>, []))))"

text \<open>
  \<^verbatim>\<open>fs.rm(p, { recursive: true, force: true })\<close>: with \<^verbatim>\<open>force\<close> a path that
  does not exist is no error. When an entry at or below \<open>p\<close> is refused
  (\<open>refused_below\<close> finds it) the call fails with \<^verbatim>\<open>EACCES\<close>; the model then
  removes nothing (which of the other entries a failed removal has already deleted is
  not determined by the script).
\<close>

definition refused_below :: "path \<Rightarrow> fs \<Rightarrow> path option" where
  "refused_below p s = find (\<lambda>q. prefix p q \<and> lookup q (entries s) \<noteq> None) (denied s)"

definition fs_rm :: "path \<Rightarrow> unit io" where
  "fs_rm p s =
     (case lookup p (entries s) of
        None \<Rightarrow> (if through_file p (entries s) then io_throw (ENOTDIR p) s else io_return () s)
      | Some n \<Rightarrow>
          (case refused_below p s of
             Some q \<Rightarrow> io_throw (EACCES q) s
           | None \<Rightarrow> (Inr (), s\<lparr>entries := del p (entries s)\<rparr>, [])))"

text \<open>\<^verbatim>\<open>fs.writeFile(p, text, 'utf8')\<close>: creates the file or replaces its text.\<close>

definition fs_writeFile :: "path \<Rightarrow> string \<Rightarrow> unit io" where
  "fs_writeFile p c s =
     (if p \<in> set (denied s) then io_throw (EACCES p) s
      else (case lookup p (entries s) of
              Some (Dir sub) \<Rightarrow> io_throw (EISDIR p) s
            | _ \<Rightarrow>
                (case put p (File c) (entries s) of
                   None \<Rightarrow> io_throw (missing p (entries s)) s
                 | Some es \<Rightarrow> (Inr (), s\<lparr>entries := es\<rparr>, []))))"

text \<open>\<^verbatim>\<open>fs.readFile(p, 'utf8')\<close>\<close>

definition fs_readFile :: "path \<Rightarrow> string io" where
  "fs_readFile p s =
     (case lookup p (entries s) of
        None \<Rightarrow> io_throw (missing p (entries s)) s
      | Some (Dir sub) \<Rightarrow> io_throw (EISDIR p) s
      | Some (File c) \<Rightarrow> io_return c s)"

text \<open>\<^verbatim>\<open>fs.copyFile(src, dest)\<close>: the destination is replaced when it exists.\<close>

definition fs_copyFile :: "path \<Rightarrow> path \<Rightarrow> unit io" where
  "fs_copyFile src dest = io_bind (fs_readFile src) (\<lambda>c. fs_writeFile dest c)"

text \<open>
  \<^verbatim>\<open>fs.readdir(p, { withFileTypes: true })\<close>: the entries of the directory, each
  with its name and its node (which tells \<^verbatim>\<open>isDirectory()\<close>).
\<close>

definition fs_readdir :: "path \<Rightarrow> (string \<times> node) list io" where
  "fs_readdir p s =
     (case lookup p (entries s) of
        None \<Rightarrow> io_throw (missing p (entries s)) s
      | Some (File c) \<Rightarrow> io_throw (ENOTDIR p) s
      | Some (Dir sub) \<Rightarrow> io_return sub s)"

subsection \<open>The file system helpers of the script\<close>

definition ensureDir :: "path \<Rightarrow> unit io" where
  "ensureDir dirPath = io_catch (fs_access dirPath) (\<lambda>err. fs_mkdir dirPath)"

definition removeDir :: "path \<Rightarrow> unit io" where
  "removeDir dirPath = io_catch (fs_rm dirPath) (\<lambda>err. io_return ())"

definition copyFile :: "path \<Rightarrow> path \<Rightarrow> unit io" where
  "copyFile src dest = fs_copyFile src dest"

text \<open>
  \<^verbatim>\<open>copyDir\<close> creates the destination, lists the source and copies entry by entry,
  calling itself on a directory. \<open>copyEntries\<close> is its loop; the call for a directory
  entry creates the destination below and continues with the entries the listing holds
  for it. The script copies from the source tree into a release directory, so nothing it
  writes changes what it lists.
\<close>

function copyEntries :: "(string \<times> node) list \<Rightarrow> path \<Rightarrow> path \<Rightarrow> unit io" where
  "copyEntries [] src dest = io_return ()"
| "copyEntries ((nm, File c) # rest) src dest =
     io_bind (copyFile (src @ [nm]) (dest @ [nm])) (\<lambda>_. copyEntries rest src dest)"
| "copyEntries ((nm, Dir sub) # rest) src dest =
     io_bind
       (io_bind (fs_mkdir (dest @ [nm])) (\<lambda>_. copyEntries sub (src @ [nm]) (dest @ [nm])))
       (\<lambda>_. copyEntries rest src dest)"
  by pat_completeness auto
termination
  by (relation "measure (\<lambda>(es, src, dest). size_list (size_prod (\<lambda>_. 0) size) es)") auto

definition copyDir :: "path \<Rightarrow> path \<Rightarrow> unit io" where
  "copyDir src dest =
     io_bind (fs_mkdir dest) (\<lambda>_.
     io_bind (fs_readdir src) (\<lambda>es. copyEntries es src dest))"

subsection \<open>Configuration and the platform registry\<close>

text \<open>
  What one run of the script takes from outside: the two protection passes at the fixed
  options of \<^verbatim>\<open>CONFIG\<close> (terser's \<^verbatim>\<open>minify\<close> gives the minified code, or a
  result that carries an \<^verbatim>\<open>error\<close>, or rejects; the obfuscator gives the obfuscated
  code or throws), \<^verbatim>\<open>JSON.parse\<close> followed by the read of \<^verbatim>\<open>version\<close> (no
  result when the parse throws or the field is missing or falsy), the clock (the date of
  the day and the seconds a run took, as printed), and the literal prose of the release
  document: the pieces of the template between its substitution points and the two
  blocks of install instructions, which hold characters outside ASCII.

  \<^verbatim>\<open>CONFIG.obfuscatorOptions\<close> sets no \<^verbatim>\<open>seed\<close> and asks for shuffled and
  rotated string arrays, injected dead code and random identifier names, so the
  obfuscator draws at random at every call. \<open>obfuscate ext n code\<close> is what it returns
  for the text \<open>code\<close> when its draw is \<open>n\<close>, and \<open>seed ext dest\<close> is the draw of
  the call whose result this run writes to \<open>dest\<close>. Another run has its own draws, as it
  has its own date.
\<close>

datatype minify_result = Minified string | Error_result string | Rejected string

record externals =
  minify :: "string \<Rightarrow> minify_result"
  obfuscate :: "nat \<Rightarrow> string \<Rightarrow> string + string"
  seed :: "path \<Rightarrow> nat"
  parse_version :: "string \<Rightarrow> string option"
  today :: string
  duration :: string
  template :: "string list"
  chromeInstallInstructions :: string
  firefoxInstallInstructions :: string

record config =
  sourceDir :: path
  chromeReleaseDir :: path
  firefoxReleaseDir :: path
  jsFiles :: "string list"
  cssFiles :: "string list"
  htmlFiles :: "string list"
  copyDirs :: "string list"

definition CONFIG :: config where
  "CONFIG =
     \<lparr>sourceDir = [''src''],
      chromeReleaseDir = [''chrome_release''],
      firefoxReleaseDir = [''firefox_release''],
      jsFiles = [''background.js'', ''content.js'', ''injected.js'', ''sidepanel.js''],
      cssFiles = [''sidepanel.css''],
      htmlFiles = [''sidepanel.html''],
      copyDirs = [''icons'']\<rparr>"

record platform =
  name :: string
  releaseDir :: path
  manifestFile :: string
  namespace :: string
  apiTransform :: "string \<Rightarrow> string"
  readmeTemplate :: string

definition chrome_platform :: platform where
  "chrome_platform =
     \<lparr>name = ''Chrome'',
      releaseDir = chromeReleaseDir CONFIG,
      manifestFile = ''chrome.json'',
      namespace = ''chrome'',
      apiTransform = chrome_apiTransform,
      readmeTemplate = ''chrome''\<rparr>"

definition firefox_platform :: platform where
  "firefox_platform =
     \<lparr>name = ''Firefox'',
      releaseDir = firefoxReleaseDir CONFIG,
      manifestFile = ''firefox.json'',
      namespace = ''browser'',
      apiTransform = firefox_apiTransform,
      readmeTemplate = ''firefox''\<rparr>"

definition PLATFORMS :: "(string \<times> platform) list" where
  "PLATFORMS = [(''chrome'', chrome_platform), (''firefox'', firefox_platform)]"

subsection \<open>Text helpers\<close>

text \<open>
  ASCII stand-ins for the glyphs the messages start with, \<^verbatim>\<open>toLowerCase\<close> on the
  letters A to Z, the decimal print of a number, and a path as it is printed.
\<close>

definition tick :: string where "tick = ''[ok]''"
definition cross :: string where "cross = ''[x]''"
definition check_mark :: string where "check_mark = ''[done]''"
definition package_mark :: string where "package_mark = ''[pkg]''"
definition hint_mark :: string where "hint_mark = ''[tip]''"
definition arrow :: string where "arrow = ''->''"

definition toLowerCase :: "string \<Rightarrow> string" where
  "toLowerCase s =
     map (\<lambda>c. case map_of (zip ''ABCDEFGHIJKLMNOPQRSTUVWXYZ'' ''abcdefghijklmnopqrstuvwxyz'') c of
                None \<Rightarrow> c
              | Some l \<Rightarrow> l) s"

fun show_nat :: "nat \<Rightarrow> string" where
  "show_nat n =
     (if n < 10 then [''0123456789'' ! n]
      else show_nat (n div 10) @ [''0123456789'' ! (n mod 10)])"

fun show_path :: "path \<Rightarrow> string" where
  "show_path [] = ''.''"
| "show_path [x] = x"
| "show_path (x # y # ys) = x @ ''/'' @ show_path (y # ys)"

definition rule60 :: string where
  "rule60 = replicate 60 (CHR ''='')"

subsection \<open>Processing one module\<close>

text \<open>
  The two packages \<^verbatim>\<open>processJsFile\<close> imports first are taken to be installed.
  Its statements follow: the source is read, transformed for the platform, minified
  (a result with an \<^verbatim>\<open>error\<close> is printed and thrown), obfuscated and written
  under the same file name into the release directory.
\<close>

definition processJsFile :: "externals \<Rightarrow> string \<Rightarrow> platform \<Rightarrow> unit io" where
  "processJsFile ext filename platform =
     (let sourcePath = sourceDir CONFIG @ [''js'', filename];
          destPath = releaseDir platform @ [filename]
      in io_bind (console_log (''  Processing: '' @ filename)) (\<lambda>_.
         io_bind (fs_readFile sourcePath) (\<lambda>sourceCode.
         let sourceCode = apiTransform platform sourceCode
         in io_bind (console_log ''    - Minifying...'') (\<lambda>_.
            (case minify ext sourceCode of
               Rejected msg \<Rightarrow> io_throw (MinifyError msg)
             | Error_result msg \<Rightarrow>
                 io_bind (console_error (Text (''    - Terser error: '' @ msg))) (\<lambda>_.
                 io_throw (MinifyError msg))
             | Minified code \<Rightarrow>
                 io_bind (console_log ''    - Obfuscating...'') (\<lambda>_.
                 (case obfuscate ext (seed ext destPath) code of
                    Inl msg \<Rightarrow> io_throw (ObfuscationError msg)
                  | Inr obfuscated \<Rightarrow>
                      io_bind (fs_writeFile destPath obfuscated) (\<lambda>_.
                      console_log
                        (''    '' @ tick @ '' Done ('' @ show_nat (length obfuscated)
                           @ '' bytes)'')))))))))"

text \<open>
  The text \<^verbatim>\<open>processJsFile\<close> writes for a module and its source text, when both
  passes succeed.
\<close>

definition protected_text :: "externals \<Rightarrow> platform \<Rightarrow> string \<Rightarrow> string \<Rightarrow> string option" where
  "protected_text ext platform filename sourceCode =
     (case minify ext (apiTransform platform sourceCode) of
        Minified code \<Rightarrow>
          (case obfuscate ext (seed ext (releaseDir platform @ [filename])) code of
             Inr obfuscated \<Rightarrow> Some obfuscated
           | Inl msg \<Rightarrow> None)
      | Error_result msg \<Rightarrow> None
      | Rejected msg \<Rightarrow> None)"

subsection \<open>The release document\<close>

text \<open>
  The template literal has 28 substitution points; \<open>readmeValues\<close> lists what is put
  there, in the order of the template, and \<open>fill\<close> puts the values between the pieces of
  the template. The date is the value before the last.
\<close>

fun fill :: "string list \<Rightarrow> string list \<Rightarrow> string" where
  "fill [] vs = concat vs"
| "fill (c # cs) [] = c @ concat cs"
| "fill (c # cs) (v # vs) = c @ v @ fill cs vs"

definition readmeValues :: "externals \<Rightarrow> platform \<Rightarrow> string \<Rightarrow> string list" where
  "readmeValues ext platform version =
     (let isChrome = (name platform = ''Chrome'');
          browserName = (if isChrome then ''Chrome'' else ''Firefox'');
          addOnType = (if isChrome then ''Extension'' else ''Add-on'');
          installInstructions =
            (if isChrome then chromeInstallInstructions ext else firefoxInstallInstructions ext);
          debugUrl =
            (if isChrome then ''chrome://extensions/'' else ''about:debugging#/runtime/this-firefox'');
          manifestVersion = (if isChrome then ''V3'' else ''V2'');
          apiName = (if isChrome then ''chrome.*'' else ''browser.*'');
          panelType = (if isChrome then ''Side Panel'' else ''Sidebar'');
          iconUrl =
            (if isChrome
             then ''https://img.shields.io/badge/Chrome-Extension-green?logo=google-chrome''
             else ''https://img.shields.io/badge/Firefox-Add-on-orange?logo=firefox'');
          minVersion = (if isChrome then ''114'' else ''115'');
          storage = (if isChrome then ''`chrome.storage.local`'' else ''`browser.storage.local`'')
      in [browserName, addOnType, panelType, browserName, addOnType, iconUrl, manifestVersion,
          manifestVersion, version, toLowerCase browserName, browserName, installInstructions,
          browserName, toLowerCase panelType, toLowerCase panelType, apiName, manifestVersion,
          panelType, browserName, minVersion, storage, browserName, minVersion,
          toLowerCase panelType, debugUrl, version, today ext, browserName])"

definition generateReleaseReadme :: "externals \<Rightarrow> platform \<Rightarrow> unit io" where
  "generateReleaseReadme ext platform =
     (let packageJsonPath = [''package.json'']
      in io_bind
           (io_catch
              (io_bind (fs_readFile packageJsonPath) (\<lambda>packageJson.
               io_return (case parse_version ext packageJson of None \<Rightarrow> ''1.0.0'' | Some v \<Rightarrow> v)))
              (\<lambda>err. io_return ''1.0.0''))
           (\<lambda>version.
              let readmeContent = fill (template ext) (readmeValues ext platform version);
                  readmePath = releaseDir platform @ [''README.md'']
              in io_bind (fs_writeFile readmePath readmeContent) (\<lambda>_.
                 console_log (''  '' @ tick @ '' Generated README.md''))))"

subsection \<open>The build of one platform\<close>

text \<open>
  The body of \<^verbatim>\<open>buildPlatform\<close> is cut at its seven step comments; each step is a
  definition of its own, and \<open>buildPlatform\<close> runs them in order.
\<close>

definition cleanReleaseDir :: "platform \<Rightarrow> unit io" where
  "cleanReleaseDir platform =
     io_seq
       [console_log ''\<newline>Step 1: Cleaning release directory...'',
        removeDir (releaseDir platform),
        ensureDir (releaseDir platform),
        console_log (''  '' @ tick @ '' Release directory cleaned'')]"

definition copyManifest :: "platform \<Rightarrow> unit io" where
  "copyManifest platform =
     (let manifestSrc = sourceDir CONFIG @ [''manifests'', manifestFile platform];
          manifestDest = releaseDir platform @ [''manifest.json'']
      in io_seq
           [console_log ''\<newline>Step 2: Copying manifest.json...'',
            copyFile manifestSrc manifestDest,
            console_log (''  '' @ tick @ '' Copied '' @ manifestFile platform)])"

definition processJsFiles :: "externals \<Rightarrow> platform \<Rightarrow> unit io" where
  "processJsFiles ext platform =
     io_seq
       [console_log ''\<newline>Step 3: Processing JavaScript files...'',
        console_log (replicate 60 (CHR ''-'')),
        for_each (\<lambda>jsFile. processJsFile ext jsFile platform) (jsFiles CONFIG)]"

definition copyCssFiles :: "platform \<Rightarrow> unit io" where
  "copyCssFiles platform =
     io_seq
       [console_log ''\<newline>Step 4: Copying CSS files...'',
        for_each
          (\<lambda>cssFile.
             let srcPath = sourceDir CONFIG @ [''css'', cssFile];
                 destPath = releaseDir platform @ [cssFile]
             in io_catch
                  (io_bind (copyFile srcPath destPath) (\<lambda>_.
                   console_log (''  '' @ tick @ '' Copied: '' @ cssFile)))
                  (\<lambda>err. console_log (''  - Skipped: '' @ cssFile @ '' (not found)'')))
          (cssFiles CONFIG)]"

definition copyHtmlFiles :: "platform \<Rightarrow> unit io" where
  "copyHtmlFiles platform =
     io_seq
       [console_log ''\<newline>Step 5: Copying HTML files...'',
        for_each
          (\<lambda>htmlFile.
             let srcPath = sourceDir CONFIG @ [''html'', htmlFile];
                 destPath = releaseDir platform @ [htmlFile]
             in io_catch
                  (io_bind (copyFile srcPath destPath) (\<lambda>_.
                   console_log (''  '' @ tick @ '' Copied: '' @ htmlFile)))
                  (\<lambda>err. console_log (''  - Skipped: '' @ htmlFile @ '' (not found)'')))
          (htmlFiles CONFIG)]"

definition copyDirectories :: "platform \<Rightarrow> unit io" where
  "copyDirectories platform =
     io_seq
       [console_log ''\<newline>Step 6: Copying directories...'',
        for_each
          (\<lambda>dir.
             let srcPath = sourceDir CONFIG @ [dir];
                 destPath = releaseDir platform @ [dir]
             in io_catch
                  (io_bind (copyDir srcPath destPath) (\<lambda>_.
                   console_log (''  '' @ tick @ '' Copied: '' @ dir @ ''/'')))
                  (\<lambda>err. console_log (''  - Skipped: '' @ dir @ ''/ (not found)'')))
          (copyDirs CONFIG)]"

definition generateReadme :: "externals \<Rightarrow> platform \<Rightarrow> unit io" where
  "generateReadme ext platform =
     io_seq
       [console_log ''\<newline>Step 7: Generating release README.md...'',
        generateReleaseReadme ext platform]"

text \<open>
  The seven steps, in the order of the body.
\<close>

definition platformSteps :: "externals \<Rightarrow> platform \<Rightarrow> unit io list" where
  "platformSteps ext platform =
     [cleanReleaseDir platform,
      copyManifest platform,
      processJsFiles ext platform,
      copyCssFiles platform,
      copyHtmlFiles platform,
      copyDirectories platform,
      generateReadme ext platform]"

text \<open>
  \<^verbatim>\<open>PLATFORMS[platformKey]\<close> reads a property of an object literal. It finds one
  of the two keys of the registry, or a property every object inherits from
  \<^verbatim>\<open>Object.prototype\<close>, or nothing, and then it is \<^verbatim>\<open>undefined\<close>.
  \<open>Object_prototype\<close> lists the inherited keys, each with what
  \<^verbatim>\<open>${platform.name}\<close> prints for it: the name of the function found there, and
  \<^verbatim>\<open>undefined\<close> for \<^verbatim>\<open>__proto__\<close>, which gives the prototype object.

  For an inherited key every other field of \<^verbatim>\<open>platform\<close> is \<^verbatim>\<open>undefined\<close>.
  The build prints its header and starts step 1 with \<^verbatim>\<open>undefined\<close> as the release
  directory: \<^verbatim>\<open>fs.rm\<close>, \<^verbatim>\<open>fs.access\<close> and \<^verbatim>\<open>fs.mkdir\<close> each reject
  with a \<^verbatim>\<open>TypeError\<close> (code \<^verbatim>\<open>ERR_INVALID_ARG_TYPE\<close>) before they touch the
  file system. \<^verbatim>\<open>removeDir\<close> catches the first, \<^verbatim>\<open>ensureDir\<close> catches the
  second and lets the third out, so nothing behind \<^verbatim>\<open>ensureDir\<close> runs.

  For a key that is found nowhere the read of \<^verbatim>\<open>platform.name\<close> in the second
  statement raises a \<^verbatim>\<open>TypeError\<close>; the first line is printed before.
\<close>

definition Object_prototype :: "(string \<times> string) list" where
  "Object_prototype =
     [(''constructor'', ''Object''),
      (''__defineGetter__'', ''__defineGetter__''),
      (''__defineSetter__'', ''__defineSetter__''),
      (''hasOwnProperty'', ''hasOwnProperty''),
      (''__lookupGetter__'', ''__lookupGetter__''),
      (''__lookupSetter__'', ''__lookupSetter__''),
      (''isPrototypeOf'', ''isPrototypeOf''),
      (''propertyIsEnumerable'', ''propertyIsEnumerable''),
      (''toString'', ''toString''),
      (''valueOf'', ''valueOf''),
      (''__proto__'', ''undefined''),
      (''toLocaleString'', ''toLocaleString'')]"

definition invalid_path :: error where
  "invalid_path =
     TypeError ''The path argument must be of type string or an instance of Buffer or URL. Received undefined''"

definition removeDir_undefined :: "unit io" where
  "removeDir_undefined = io_catch (io_throw invalid_path) (\<lambda>err. io_return ())"

definition ensureDir_undefined :: "unit io" where
  "ensureDir_undefined = io_catch (io_throw invalid_path) (\<lambda>err. io_throw invalid_path)"

definition buildPlatform :: "externals \<Rightarrow> string \<Rightarrow> unit io" where
  "buildPlatform ext platformKey =
     io_bind (console_log (''\<newline>'' @ rule60)) (\<lambda>_.
     (case map_of PLATFORMS platformKey of
        Some platform \<Rightarrow>
          io_seq
            ([console_log (''Building for '' @ name platform),
              console_log rule60]
             @ platformSteps ext platform
             @ [console_log (''\<newline>'' @ rule60),
                console_log (name platform @ '' build completed successfully!''),
                console_log (''Release folder: '' @ show_path (releaseDir platform)),
                console_log rule60])
      | None \<Rightarrow>
          (case map_of Object_prototype platformKey of
             Some shown \<Rightarrow>
               io_seq
                 [console_log (''Building for '' @ shown),
                  console_log rule60,
                  console_log ''\<newline>Step 1: Cleaning release directory...'',
                  removeDir_undefined,
                  ensureDir_undefined,
                  console_log (''  '' @ tick @ '' Release directory cleaned'')]
           | None \<Rightarrow>
               io_throw (TypeError ''Cannot read properties of undefined (reading 'name')''))))"

subsection \<open>The entry point\<close>

text \<open>
  A run of the script ends with an exit status, the file system it leaves and what it
  printed. \<open>finish\<close> is the end of \<^verbatim>\<open>build\<close> behind the selected builds: the
  summary and status 0, or the \<^verbatim>\<open>catch\<close> block, which prints the error to
  standard error and exits with status 1.
\<close>

definition banner :: printed where
  "banner =
     [(Stdout, Text (''\<newline>'' @ rule60)),
      (Stdout, Text ''CodeSolver Pro - Unified Build Script''),
      (Stdout, Text rule60),
      (Stdout, Text ''\<newline>Building releases for both Chrome and Firefox...\<newline>'')]"

definition summary :: "externals \<Rightarrow> printed" where
  "summary ext =
     [(Stdout, Text (''\<newline>'' @ rule60)),
      (Stdout, Text (check_mark @ '' All builds completed successfully! ('' @ duration ext @ ''s)'')),
      (Stdout, Text rule60),
      (Stdout, Text (''\<newline>'' @ package_mark @ '' Release folders:'')),
      (Stdout, Text (''   Chrome:  '' @ show_path (chromeReleaseDir CONFIG))),
      (Stdout, Text (''   Firefox: '' @ show_path (firefoxReleaseDir CONFIG))),
      (Stdout, Text (''\<newline>'' @ hint_mark @ '' To load the extension:'')),
      (Stdout, Text (''   Chrome:  Open chrome://extensions/ '' @ arrow @ '' Load unpacked'')),
      (Stdout, Text (''   Firefox: Open about:debugging#/runtime/this-firefox '' @ arrow
                       @ '' Load Temporary Add-on'')),
      (Stdout, Text (''\<newline>'' @ package_mark @ '' To create distribution packages:'')),
      (Stdout, Text (''   Chrome:  cd '' @ show_path (chromeReleaseDir CONFIG)
                       @ '' && zip -r ../CodeSolver_Pro_Chrome.zip *'')),
      (Stdout, Text (''   Firefox: cd '' @ show_path (firefoxReleaseDir CONFIG)
                       @ '' && zip -r ../CodeSolver_Pro_Firefox.xpi *'')),
      (Stdout, Text '''')]"

definition usage :: "string \<Rightarrow> printed" where
  "usage target =
     [(Stderr, Text (''\<newline>'' @ cross @ '' Unknown target: '' @ target)),
      (Stdout, Text ''\<newline>Usage: node build.js [chrome|firefox|all]''),
      (Stdout, Text ''  chrome, ch  - Build Chrome extension only''),
      (Stdout, Text ''  firefox, ff - Build Firefox extension only''),
      (Stdout, Text ''  all, both   - Build both extensions (default)'')]"

definition finish :: "externals \<Rightarrow> (error + unit) \<times> fs \<times> printed \<Rightarrow> nat \<times> fs \<times> printed" where
  "finish ext r =
     (case r of
        (Inr u, s, out) \<Rightarrow> (0, s, banner @ out @ summary ext)
      | (Inl e, s, out) \<Rightarrow> (1, s, banner @ out @ [(Stderr, Build_failed e), (Stderr, Stack e)]))"

definition build :: "externals \<Rightarrow> string list \<Rightarrow> fs \<Rightarrow> nat \<times> fs \<times> printed" where
  "build ext args s =
     (let target = (case args of
                      [] \<Rightarrow> ''all''
                    | a # rest \<Rightarrow> (if a = [] then ''all'' else toLowerCase a))
      in if target = ''chrome'' \<or> target = ''ch'' then
           finish ext (buildPlatform ext ''chrome'' s)
         else if target = ''firefox'' \<or> target = ''ff'' then
           finish ext (buildPlatform ext ''firefox'' s)
         else if target = ''all'' \<or> target = ''both'' then
           finish ext (io_bind (buildPlatform ext ''chrome'') (\<lambda>_. buildPlatform ext ''firefox'') s)
         else (1, s, banner @ usage target))"

subsection \<open>Reading a run, and example inputs\<close>

definition result_of :: "(error + 'a) \<times> fs \<times> printed \<Rightarrow> error + 'a" where
  "result_of r = fst r"

definition state_of :: "(error + 'a) \<times> fs \<times> printed \<Rightarrow> fs" where
  "state_of r = fst (snd r)"

text \<open>The result and the file system of a run, leaving aside what it printed.\<close>

definition run :: "'a io \<Rightarrow> fs \<Rightarrow> (error + 'a) \<times> fs" where
  "run m s = (fst (m s), fst (snd (m s)))"

definition printed_of :: "(error + 'a) \<times> fs \<times> printed \<Rightarrow> printed" where
  "printed_of r = snd (snd r)"

text \<open>
  Passes that return their input; a source tree with every configured file; the same
  with a release directory left by an earlier build; the same where the operating system
  refuses the release document of Chrome, and what the first six steps of the Chrome
  build make of it; a source tree without the second module; the
  full source tree with a release directory that holds an entry the operating system
  refuses to remove; and such a release directory alone.
\<close>

definition example_ext :: externals where
  "example_ext =
     \<lparr>minify = Minified, obfuscate = (\<lambda>n. Inr), seed = (\<lambda>dest. 0),
      parse_version = (\<lambda>t. Some ''1.2.3''),
      today = ''2025-01-01'', duration = ''0.01'', template = [''# '', '' - ''],
      chromeInstallInstructions = ''load unpacked'',
      firefoxInstallInstructions = ''load temporary add-on''\<rparr>"

definition example_fs :: fs where
  "example_fs =
     \<lparr>entries =
        [(''package.json'', File ''{}''),
         (''src'', Dir
            [(''manifests'', Dir [(''chrome.json'', File ''mc''), (''firefox.json'', File ''mf'')]),
             (''js'', Dir [(''background.js'', File ''chrome.a()''), (''content.js'', File ''b''),
                           (''injected.js'', File ''c''), (''sidepanel.js'', File ''d'')]),
             (''css'', Dir [(''sidepanel.css'', File ''css'')]),
             (''icons'', Dir [(''a.png'', File ''png'')])])],
      denied = []\<rparr>"

definition stale_fs :: fs where
  "stale_fs =
     example_fs\<lparr>entries :=
       entries example_fs @ [(''chrome_release'', Dir [(''stale.js'', File ''old'')])]\<rparr>"



definition missing_module_fs :: fs where
  "missing_module_fs =
     \<lparr>entries =
        [(''package.json'', File ''{}''),
         (''src'', Dir
            [(''manifests'', Dir [(''chrome.json'', File ''mc''), (''firefox.json'', File ''mf'')]),
             (''js'', Dir [(''background.js'', File ''chrome.a()''),
                           (''injected.js'', File ''c''), (''sidepanel.js'', File ''d'')])])],
      denied = []\<rparr>"

definition refused_stale_fs :: fs where
  "refused_stale_fs =
     example_fs\<lparr>entries :=
       entries example_fs @ [(''chrome_release'', Dir [(''old'', Dir [(''stale.js'', File ''x'')])])],
       denied := [[''chrome_release'', ''old'', ''stale.js'']]\<rparr>"

definition locked_fs :: fs where
  "locked_fs =
     \<lparr>entries = [(''chrome_release'', Dir [(''old'', Dir [(''stale.js'', File ''x'')])])],
      denied = [[''chrome_release'', ''old'', ''stale.js'']]\<rparr>"

subsection \<open>Notions for comparing runs\<close>

text \<open>
  \<open>confined x m\<close>: the action changes nothing outside the entry \<open>x\<close> of the script's
  directory. \<open>same_but q s t\<close>: two file systems answer every lookup alike, except at
  \<open>q\<close> and the directories above it. \<open>date_related\<close> relates the file systems two runs
  of the Documentation Generator leave when only the date differs, and \<open>similar\<close> lifts
  such a relation to two actions started in the same file system.
\<close>

definition confined :: "string \<Rightarrow> 'a io \<Rightarrow> bool" where
  "confined x m \<longleftrightarrow>
     (\<forall>s. AList.delete x (entries (snd (run m s))) = AList.delete x (entries s)
          \<and> denied (snd (run m s)) = denied s)"

definition same_but :: "path \<Rightarrow> fs \<Rightarrow> fs \<Rightarrow> bool" where
  "same_but q s t \<longleftrightarrow>
     denied s = denied t
     \<and> (\<forall>q'. \<not> prefix q' q \<longrightarrow> lookup q' (entries s) = lookup q' (entries t))"

definition date_related ::
  "externals \<Rightarrow> platform \<Rightarrow> string \<Rightarrow> error + unit \<Rightarrow> fs \<Rightarrow> fs \<Rightarrow> bool" where
  "date_related ext p d r s t =
     (case r of
        Inl e \<Rightarrow> t = s
      | Inr u \<Rightarrow>
          same_but (releaseDir p @ [''README.md'']) s t
          \<and> (\<exists>v. lookup (releaseDir p @ [''README.md'']) (entries s)
                    = Some (File (fill (template ext) (readmeValues ext p v)))
                \<and> lookup (releaseDir p @ [''README.md'']) (entries t)
                    = Some (File (fill (template ext) (readmeValues (ext\<lparr>today := d\<rparr>) p v)))))"

definition similar :: "(error + unit \<Rightarrow> fs \<Rightarrow> fs \<Rightarrow> bool) \<Rightarrow> unit io \<Rightarrow> unit io \<Rightarrow> bool" where
  "similar rel m1 m2 \<longleftrightarrow>
     (\<forall>s r t1. run m1 s = (r, t1) \<longrightarrow> (\<exists>t2. run m2 s = (r, t2) \<and> rel r t1 t2))"

subsection \<open>Properties of the transformation\<close>

lemma render_firefox_shim: "render_shim firefox_shim = polyfill"
  by (simp add: render_shim_def firefox_shim_def polyfill_def)

lemma replace_chrome_match:
  "prefix ''chrome.'' (c # cs) \<Longrightarrow>
     replace_chrome (c # cs) = ''browser.'' @ replace_chrome (drop 7 (c # cs))"
  by (simp only: replace_chrome.simps if_True)

lemma replace_chrome_skip:
  "\<not> prefix ''chrome.'' (c # cs) \<Longrightarrow> replace_chrome (c # cs) = c # replace_chrome cs"
  by (simp only: replace_chrome.simps if_False)

lemma replace_chrome_keeps_prefix:
  "prefix p (replace_chrome s) \<Longrightarrow> CHR ''b'' \<notin> set p \<Longrightarrow> prefix p s"
proof (induction s arbitrary: p rule: replace_chrome.induct)
  case 1
  then show ?case by simp
next
  case (2 c cs)
  show ?case
  proof (cases p)
    case Nil
    then show ?thesis by simp
  next
    case (Cons a p')
    show ?thesis
    proof (cases "prefix ''chrome.'' (c # cs)")
      case True
      then have "replace_chrome (c # cs) = ''browser.'' @ replace_chrome (drop 7 (c # cs))"
        by (rule replace_chrome_match)
      with "2.prems" Cons show ?thesis by auto
    next
      case False
      then have eq: "replace_chrome (c # cs) = c # replace_chrome cs"
        by (rule replace_chrome_skip)
      from "2.prems" Cons have "a = c" and "prefix p' (replace_chrome cs)" and "CHR ''b'' \<notin> set p'"
        unfolding eq by simp_all
      with "2.IH"(2) [OF False] Cons show ?thesis by simp
    qed
  qed
qed

lemma replace_chrome_no_leading_match: "\<not> prefix ''chrome.'' (replace_chrome s)"
proof
  assume a: "prefix ''chrome.'' (replace_chrome s)"
  then have p: "prefix ''chrome.'' s"
    by (rule replace_chrome_keeps_prefix) simp
  then obtain c cs where s: "s = c # cs" by (cases s) auto
  from p s have "replace_chrome s = ''browser.'' @ replace_chrome (drop 7 (c # cs))"
    using replace_chrome_match by blast
  with a show False by simp
qed

lemma replace_chrome_no_match: "\<not> sublist ''chrome.'' (replace_chrome s)"
proof (induction s rule: replace_chrome.induct)
  case 1
  then show ?case by simp
next
  case (2 c cs)
  show ?case
  proof (cases "prefix ''chrome.'' (c # cs)")
    case True
    then have eq: "replace_chrome (c # cs) = ''browser.'' @ replace_chrome (drop 7 (c # cs))"
      by (rule replace_chrome_match)
    from "2.IH"(1) [OF True] show ?thesis
      unfolding eq by (simp add: sublist_Cons_right)
  next
    case False
    then have eq: "replace_chrome (c # cs) = c # replace_chrome cs"
      by (rule replace_chrome_skip)
    have "\<not> prefix ''chrome.'' (replace_chrome (c # cs))"
      by (rule replace_chrome_no_leading_match)
    then have "\<not> prefix ''chrome.'' (c # replace_chrome cs)"
      unfolding eq .
    with "2.IH"(2) [OF False] show ?thesis
      unfolding eq sublist_Cons_right [of _ c] by blast
  qed
qed

lemma replace_chrome_id: "\<not> sublist ''chrome.'' s \<Longrightarrow> replace_chrome s = s"
proof (induction s rule: replace_chrome.induct)
  case 1
  then show ?case by simp
next
  case (2 c cs)
  from "2.prems" have np: "\<not> prefix ''chrome.'' (c # cs)" and ns: "\<not> sublist ''chrome.'' cs"
    unfolding sublist_Cons_right [of _ c] by blast+
  from "2.IH"(2) [OF np ns] replace_chrome_skip [OF np] show ?case by simp
qed

lemma no_match_across:
  assumes "\<not> prefix ''chrome.'' (c # g)"
  shows "\<not> prefix ''chrome.'' ((c # g) @ ''chrome.'' @ t)"
proof
  assume "prefix ''chrome.'' ((c # g) @ ''chrome.'' @ t)"
  then consider "prefix ''chrome.'' (c # g)"
    | us where "''chrome.'' = (c # g) @ us" and "prefix us (''chrome.'' @ t)"
    unfolding prefix_append by blast
  then show False
  proof cases
    case 1
    with assms show ?thesis by simp
  next
    case 2
    from 2(1) have g: "''hrome.'' = g @ us"
      by simp
    show ?thesis
    proof (cases us)
      case Nil
      with 2(1) assms show ?thesis by simp
    next
      case (Cons u us')
      with 2(2) have "u = CHR ''c''" by simp
      with Cons have "CHR ''c'' \<in> set (g @ us)" by simp
      then have "CHR ''c'' \<in> set ''hrome.''"
        unfolding g .
      then show ?thesis by simp
    qed
  qed
qed

lemma replace_chrome_first:
  "\<not> sublist ''chrome.'' g \<Longrightarrow>
     replace_chrome (g @ ''chrome.'' @ t) = g @ ''browser.'' @ replace_chrome t"
proof (induction g)
  case Nil
  have "prefix ''chrome.'' (CHR ''c'' # ''hrome.'' @ t)" by simp
  from replace_chrome_match [OF this] show ?case by simp
next
  case (Cons c g)
  from Cons.prems have np: "\<not> prefix ''chrome.'' (c # g)" and ns: "\<not> sublist ''chrome.'' g"
    unfolding sublist_Cons_right [of _ c] by blast+
  from no_match_across [OF np] have "\<not> prefix ''chrome.'' (c # (g @ ''chrome.'' @ t))"
    by simp
  from replace_chrome_skip [OF this] Cons.IH [OF ns] show ?case
    by simp
qed

text \<open>
  C6: the pattern of the substitution is the legacy token followed by a dot. An
  occurrence of \<^verbatim>\<open>chrome\<close> that no dot follows, as in \<^verbatim>\<open>typeof chrome\<close> or
  \<^verbatim>\<open>chrome[0]\<close>, is not replaced, so the result can hold the legacy token.
\<close>

theorem bare_legacy_token_survives:
  "firefox_apiTransform ''typeof chrome'' = polyfill @ ''typeof chrome''
   \<and> sublist legacy_token (replace_chrome ''typeof chrome'')
   \<and> replace_chrome ''chrome[0]'' = ''chrome[0]''"
proof -
  have "replace_chrome ''typeof chrome'' = ''typeof '' @ legacy_token @ []"
    by (simp add: legacy_token_def)
  then have "sublist legacy_token (replace_chrome ''typeof chrome'')"
    by (simp only: sublist_appendI)
  then show ?thesis
    by (simp add: firefox_apiTransform_def)
qed

text \<open>
  C6, as amended: applied to \<^verbatim>\<open>chrome.storage.get(x)\<close> the Firefox transformation
  returns \<^verbatim>\<open>browser.storage.get(x)\<close> behind the shim that declares
  \<^verbatim>\<open>browser\<close> as \<^verbatim>\<open>chrome\<close> when \<^verbatim>\<open>browser\<close> is undefined. The
  substitution is purely textual and replaces every occurrence of the legacy token that
  a dot follows: a text without \<^verbatim>\<open>chrome.\<close> is returned as it is; in any other
  text the part before the first \<^verbatim>\<open>chrome.\<close> is kept, that occurrence becomes
  \<^verbatim>\<open>browser.\<close>, and the substitution goes on behind it; so no \<^verbatim>\<open>chrome.\<close>
  is left, not in a string literal and not in a comment either.
\<close>

theorem firefox_transform_replaces_dotted_token:
  "firefox_apiTransform ''chrome.storage.get(x)'' =
     ''\<newline>// Firefox compatibility\<newline>if (typeof browser === 'undefined') {\<newline>  var browser = chrome;\<newline>}\<newline>''
       @ ''browser.storage.get(x)''
   \<and> firefox_apiTransform code = polyfill @ replace_chrome code
   \<and> (\<not> sublist (legacy_token @ ''.'') g \<longrightarrow>
        replace_chrome g = g
        \<and> replace_chrome (g @ legacy_token @ ''.'' @ rest)
            = g @ modern_token @ ''.'' @ replace_chrome rest)
   \<and> \<not> sublist (legacy_token @ ''.'') (replace_chrome code)
   \<and> replace_chrome ''f('chrome.a'); // chrome.b'' = ''f('browser.a'); // browser.b''"
proof -
  have "firefox_apiTransform ''chrome.storage.get(x)'' =
     ''\<newline>// Firefox compatibility\<newline>if (typeof browser === 'undefined') {\<newline>  var browser = chrome;\<newline>}\<newline>''
       @ ''browser.storage.get(x)''"
    by (simp add: firefox_apiTransform_def polyfill_def)
  moreover have "firefox_apiTransform code = polyfill @ replace_chrome code"
    by (simp add: firefox_apiTransform_def)
  moreover have "replace_chrome g = g
      \<and> replace_chrome (g @ legacy_token @ ''.'' @ rest)
          = g @ modern_token @ ''.'' @ replace_chrome rest"
    if "\<not> sublist (legacy_token @ ''.'') g"
    using that replace_chrome_id [of g] replace_chrome_first [of g rest]
    by (simp add: legacy_token_def modern_token_def)
  moreover have "\<not> sublist (legacy_token @ ''.'') (replace_chrome code)"
    using replace_chrome_no_match [of code] by (simp add: legacy_token_def)
  moreover have "replace_chrome ''f('chrome.a'); // chrome.b'' = ''f('browser.a'); // browser.b''"
    by simp
  ultimately show ?thesis
    by blast
qed

theorem firefox_transform_replaces_dotted_token_witness:
  "\<not> sublist (legacy_token @ ''.'') ''if (typeof chrome) ''
   \<and> replace_chrome ''if (typeof chrome) '' = ''if (typeof chrome) ''
   \<and> replace_chrome (''if (typeof chrome) '' @ legacy_token @ ''.'' @ ''a(chrome.b)'')
       = ''if (typeof chrome) '' @ modern_token @ ''.'' @ replace_chrome ''a(chrome.b)''"
proof -
  have h: "\<not> sublist (legacy_token @ ''.'') ''if (typeof chrome) ''"
    by code_simp
  from firefox_transform_replaces_dotted_token [of "[]" "''if (typeof chrome) ''" "''a(chrome.b)''"] h
  show ?thesis
    by blast
qed

text \<open>
  C10: the substitution runs on the input only and the shim is put in front afterwards.
  So for every input the result starts with the shim exactly as the script spells it, and
  that text holds \<^verbatim>\<open>var browser = chrome\<close>.
\<close>

theorem firefox_transform_keeps_shim:
  "take (length polyfill) (firefox_apiTransform code) = polyfill
   \<and> drop (length polyfill) (firefox_apiTransform code) = replace_chrome code
   \<and> polyfill =
       ''\<newline>// Firefox compatibility\<newline>if (typeof browser === 'undefined') {\<newline>  ''
         @ ''var browser = chrome'' @ '';\<newline>}\<newline>''"
  by (simp add: firefox_apiTransform_def) (simp add: polyfill_def)

text \<open>
  C5: the shim the Firefox transformation puts in front tests \<^verbatim>\<open>browser\<close>, the
  token the substitution writes, and declares that same identifier with the value of
  \<^verbatim>\<open>chrome\<close>, the token the substitution looks for. So it does not define the
  legacy identifier: run where only \<^verbatim>\<open>chrome\<close> is bound, it binds
  \<^verbatim>\<open>browser\<close> and leaves \<^verbatim>\<open>chrome\<close> as it was.
\<close>

theorem shim_declares_modern_token:
  "declared firefox_shim = modern_token
   \<and> initialiser firefox_shim = legacy_token
   \<and> declared firefox_shim \<noteq> legacy_token
   \<and> run_shim firefox_shim [legacy_token \<mapsto> (1::nat)]
       = Inr [legacy_token \<mapsto> 1, modern_token \<mapsto> 1]"
  by (simp add: firefox_shim_def modern_token_def legacy_token_def run_shim_def)

text \<open>
  C5, as amended: the transformation prepends a shim that defines the modern identifier
  \<^verbatim>\<open>browser\<close> as an alias for the legacy identifier \<^verbatim>\<open>chrome\<close>, and the
  alias takes effect only when the modern identifier is not already defined: where
  \<^verbatim>\<open>browser\<close> is defined the shim changes nothing, and where it is not, it gets
  the value of \<^verbatim>\<open>chrome\<close>.
\<close>

theorem firefox_shim_alias:
  "take (length polyfill) (firefox_apiTransform code) = polyfill
   \<and> polyfill = render_shim firefox_shim
   \<and> guard firefox_shim = modern_token
   \<and> declared firefox_shim = modern_token
   \<and> initialiser firefox_shim = legacy_token
   \<and> (env modern_token \<noteq> None \<longrightarrow> run_shim firefox_shim env = Inr env)
   \<and> (env modern_token = None \<longrightarrow> env legacy_token = Some v \<longrightarrow>
        run_shim firefox_shim env = Inr (env(modern_token \<mapsto> v)))"
proof -
  have "take (length polyfill) (firefox_apiTransform code) = polyfill"
    by (simp add: firefox_apiTransform_def)
  moreover have "polyfill = render_shim firefox_shim"
    by (simp add: render_firefox_shim)
  moreover have "guard firefox_shim = modern_token" "declared firefox_shim = modern_token"
    "initialiser firefox_shim = legacy_token"
    by (simp_all add: firefox_shim_def modern_token_def legacy_token_def)
  moreover have "env modern_token \<noteq> None \<longrightarrow> run_shim firefox_shim env = Inr env"
    by (simp add: firefox_shim_def modern_token_def run_shim_def)
  moreover have "env modern_token = None \<longrightarrow> env legacy_token = Some v \<longrightarrow>
        run_shim firefox_shim env = Inr (env(modern_token \<mapsto> v))"
    by (simp add: firefox_shim_def modern_token_def legacy_token_def run_shim_def)
  ultimately show ?thesis
    by blast
qed

theorem firefox_shim_alias_witness:
  "run_shim firefox_shim [modern_token \<mapsto> (2::nat), legacy_token \<mapsto> 1]
     = Inr [modern_token \<mapsto> 2, legacy_token \<mapsto> 1]
   \<and> run_shim firefox_shim [legacy_token \<mapsto> (1::nat)] = Inr [legacy_token \<mapsto> 1, modern_token \<mapsto> 1]"
proof -
  have a: "[modern_token \<mapsto> (2::nat), legacy_token \<mapsto> 1] modern_token \<noteq> None"
    by (simp add: modern_token_def legacy_token_def)
  have b: "[legacy_token \<mapsto> (1::nat)] modern_token = None"
    and c: "[legacy_token \<mapsto> (1::nat)] legacy_token = Some 1"
    by (simp_all add: modern_token_def legacy_token_def)
  from firefox_shim_alias [of "[]" "[modern_token \<mapsto> (2::nat), legacy_token \<mapsto> 1]" 1] a
    firefox_shim_alias [of "[]" "[legacy_token \<mapsto> (1::nat)]" 1] b c
  show ?thesis by blast
qed

subsection \<open>Sequencing\<close>

lemma io_bind_return [simp]: "io_bind (io_return x) f s = f x s"
  by (simp add: io_bind_def io_return_def split: prod.splits)

lemma io_bind_throw [simp]: "io_bind (io_throw e) f s = (Inl e, s, [])"
  by (simp add: io_bind_def io_throw_def)

lemma io_bind_log [simp]:
  "io_bind (console_log msg) f s =
     (case f () s of (r, s', out) \<Rightarrow> (r, s', (Stdout, Text msg) # out))"
  by (simp add: io_bind_def console_log_def)

lemma run_return [simp]: "run (io_return x) s = (Inr x, s)"
  by (simp add: run_def io_return_def)

lemma run_throw [simp]: "run (io_throw e) s = (Inl e, s)"
  by (simp add: run_def io_throw_def)

lemma run_log [simp]: "run (console_log msg) s = (Inr (), s)"
  by (simp add: run_def console_log_def)

lemma run_error [simp]: "run (console_error l) s = (Inr (), s)"
  by (simp add: run_def console_error_def)

lemma run_bind:
  "run (io_bind m f) s =
     (case run m s of (Inl e, s1) \<Rightarrow> (Inl e, s1) | (Inr x, s1) \<Rightarrow> run (f x) s1)"
  by (simp add: run_def io_bind_def split: prod.splits sum.splits)

lemma run_catch:
  "run (io_catch m h) s =
     (case run m s of (Inl e, s1) \<Rightarrow> run (h e) s1 | (Inr x, s1) \<Rightarrow> (Inr x, s1))"
  by (simp add: run_def io_catch_def split: prod.splits sum.splits)

lemma run_seq_Nil [simp]: "run (io_seq []) s = (Inr (), s)"
  by simp

lemma run_for_each_Nil [simp]: "run (for_each f []) s = (Inr (), s)"
  by simp


subsection \<open>Removing a directory\<close>

lemma removeDir_never_fails: "result_of (removeDir p s) = Inr ()"
  by (simp add: removeDir_def io_catch_def result_of_def io_return_def split: prod.splits sum.splits)

text \<open>
  C4: \<^verbatim>\<open>removeDir\<close> catches every error of the removal, not only the one for a
  path that does not exist. On a release directory that holds an entry the operating
  system refuses to remove, \<^verbatim>\<open>fs.rm\<close> fails with \<^verbatim>\<open>EACCES\<close> and
  \<^verbatim>\<open>removeDir\<close> returns normally, with the directory as it was.
\<close>

theorem removeDir_swallows_refusal:
  "fs_rm [''chrome_release''] locked_fs
     = (Inl (EACCES [''chrome_release'', ''old'', ''stale.js'']), locked_fs, [])
   \<and> removeDir [''chrome_release''] locked_fs = (Inr (), locked_fs, [])"
  by (simp add: removeDir_def io_catch_def fs_rm_def refused_below_def locked_fs_def io_throw_def
      io_return_def)

subsection \<open>Unknown keys and unknown targets\<close>




text \<open>
  C9: for the argument \<^verbatim>\<open>edge\<close> the only line on standard error is the one that
  names the unknown target; the usage text is printed with \<^verbatim>\<open>console.log\<close>, on
  standard output.
\<close>

theorem unknown_target_usage_on_stdout:
  "filter (\<lambda>l. fst l = Stderr) (snd (snd (build example_ext [''edge''] example_fs)))
     = [(Stderr, Text (''\<newline>'' @ cross @ '' Unknown target: edge''))]
   \<and> (Stdout, Text ''\<newline>Usage: node build.js [chrome|firefox|all]'')
       \<in> set (snd (snd (build example_ext [''edge''] example_fs)))"
  by (simp add: build_def toLowerCase_def usage_def banner_def)

text \<open>
  C9, as amended: invoked with a first argument that is not empty and, in lower case, none
  of the six selectors, the entry point prints a line naming the unknown target to
  standard error and the usage text to standard output, exits with status 1, and leaves
  the file system as it was.
\<close>

theorem build_unknown_target:
  "a \<noteq> [] \<and> toLowerCase a \<notin> set [''chrome'', ''ch'', ''firefox'', ''ff'', ''all'', ''both'']
   \<Longrightarrow> build ext (a # rest) s =
       (1, s,
        banner @
        [(Stderr, Text (''\<newline>'' @ cross @ '' Unknown target: '' @ toLowerCase a)),
         (Stdout, Text ''\<newline>Usage: node build.js [chrome|firefox|all]''),
         (Stdout, Text ''  chrome, ch  - Build Chrome extension only''),
         (Stdout, Text ''  firefox, ff - Build Firefox extension only''),
         (Stdout, Text ''  all, both   - Build both extensions (default)'')])"
  by (simp add: build_def usage_def)

theorem build_unknown_target_witness:
  "''edge'' \<noteq> [] \<and> toLowerCase ''edge'' \<notin> set [''chrome'', ''ch'', ''firefox'', ''ff'', ''all'', ''both'']
   \<and> build example_ext [''edge''] example_fs =
       (1, example_fs,
        banner @
        [(Stderr, Text (''\<newline>'' @ cross @ '' Unknown target: '' @ toLowerCase ''edge'')),
         (Stdout, Text ''\<newline>Usage: node build.js [chrome|firefox|all]''),
         (Stdout, Text ''  chrome, ch  - Build Chrome extension only''),
         (Stdout, Text ''  firefox, ff - Build Firefox extension only''),
         (Stdout, Text ''  all, both   - Build both extensions (default)'')])"
proof -
  have h: "''edge'' \<noteq> [] \<and> toLowerCase ''edge'' \<notin> set [''chrome'', ''ch'', ''firefox'', ''ff'', ''all'', ''both'']"
    by (simp add: toLowerCase_def)
  from build_unknown_target [OF h, of example_ext "[]" example_fs] h show ?thesis
    by blast
qed

subsection \<open>The release directory is rebuilt from nothing\<close>

lemma removeDir_release:
  assumes "refused_below [x] s = None"
  shows "removeDir [x] s = (Inr (), s\<lparr>entries := AList.delete x (entries s)\<rparr>, [])"
proof (cases "map_of (entries s) x")
  case None
  then have "x \<notin> fst ` set (entries s)"
    by (simp add: map_of_eq_None_iff)
  then have "AList.delete x (entries s) = entries s"
    by simp
  with None show ?thesis
    by (simp add: removeDir_def io_catch_def fs_rm_def io_return_def)
next
  case (Some n)
  with assms show ?thesis
    by (cases n) (simp_all add: removeDir_def io_catch_def fs_rm_def)
qed

lemma refused_below_deleted: "refused_below [x] (s\<lparr>entries := AList.delete x (entries s)\<rparr>) = None"
proof -
  have "lookup q (AList.delete x (entries s)) = None" if "prefix [x] q" for q
  proof -
    from that obtain r where "q = x # r" by (auto simp add: prefix_def)
    then show ?thesis by (simp add: delete_conv')
  qed
  then show ?thesis
    by (auto simp add: refused_below_def find_None_iff)
qed

lemma releaseDir_single:
  "map_of PLATFORMS key = Some p \<Longrightarrow> \<exists>x. releaseDir p = [x] \<and> x \<noteq> ''src'' \<and> x \<noteq> ''package.json''"
  by (auto simp add: PLATFORMS_def chrome_platform_def firefox_platform_def CONFIG_def
      split: if_splits)

lemma cleanReleaseDir_clean_start:
  assumes "releaseDir p = [x]" and "refused_below [x] s = None"
  shows "cleanReleaseDir p s = cleanReleaseDir p (s\<lparr>entries := AList.delete x (entries s)\<rparr>)"
proof -
  let ?s' = "s\<lparr>entries := AList.delete x (entries s)\<rparr>"
  have a: "removeDir [x] s = (Inr (), ?s', [])"
    using assms(2) by (simp add: removeDir_release)
  have "removeDir [x] ?s' = (Inr (), ?s'\<lparr>entries := AList.delete x (entries ?s')\<rparr>, [])"
    by (rule removeDir_release) (rule refused_below_deleted)
  then have b: "removeDir [x] ?s' = (Inr (), ?s', [])"
    by (simp add: delete_idem)
  show ?thesis
    by (simp add: cleanReleaseDir_def assms(1) io_bind_def [of "removeDir [x]"] a b)
qed

lemma buildPlatform_clean_start:
  assumes "map_of PLATFORMS key = Some p" and "releaseDir p = [x]"
    and "refused_below [x] s = None"
  shows "buildPlatform ext key s
           = buildPlatform ext key (s\<lparr>entries := AList.delete x (entries s)\<rparr>)"
  using assms(1) cleanReleaseDir_clean_start [OF assms(2,3)]
  by (simp add: buildPlatform_def platformSteps_def io_bind_def [of "cleanReleaseDir p"])

text \<open>
  C2: the build removes the release directory through \<^verbatim>\<open>removeDir\<close>, which hides
  a refused removal (C4). Where the operating system refuses to remove an entry of the
  release directory, \<^verbatim>\<open>fs.rm\<close> fails, the build goes on in the directory as it is,
  prints that the directory is cleaned and ends successfully with exit status 0, and the
  file an earlier run left is still there. Where the removal is not refused the build
  runs as it does from a file system without the directory (lemma
  \<open>buildPlatform_clean_start\<close>), and a file an earlier run left is gone.
\<close>

theorem stale_file_survives_refused_removal:
  "lookup [''chrome_release'', ''old'', ''stale.js''] (entries refused_stale_fs) = Some (File ''x'')
   \<and> result_of (fs_rm [''chrome_release''] refused_stale_fs)
       = Inl (EACCES [''chrome_release'', ''old'', ''stale.js''])
   \<and> result_of (buildPlatform example_ext ''chrome'' refused_stale_fs) = Inr ()
   \<and> lookup [''chrome_release'', ''old'', ''stale.js'']
         (entries (state_of (buildPlatform example_ext ''chrome'' refused_stale_fs)))
       = Some (File ''x'')
   \<and> (Stdout, Text (''  '' @ tick @ '' Release directory cleaned''))
       \<in> set (printed_of (buildPlatform example_ext ''chrome'' refused_stale_fs))
   \<and> fst (build example_ext [''chrome''] refused_stale_fs) = 0
   \<and> lookup [''chrome_release'', ''stale.js''] (entries stale_fs) = Some (File ''old'')
   \<and> result_of (buildPlatform example_ext ''chrome'' stale_fs) = Inr ()
   \<and> lookup [''chrome_release'', ''stale.js'']
         (entries (state_of (buildPlatform example_ext ''chrome'' stale_fs))) = None"
  by code_simp

subsection \<open>Which failures end a build\<close>

lemma result_of_run: "result_of (m s) = fst (run m s)"
  by (simp add: result_of_def run_def)







lemma put_Cons_Cons:
  assumes "put (x # y # ys) n es = Some es'"
  obtains sub sub' where "map_of es x = Some (Dir sub)" and "put (y # ys) n sub = Some sub'"
    and "es' = AList.update x (Dir sub') es"
  using assms by (auto split: option.splits node.splits)

lemma lookup_put_same: "put q (File c) es = Some es' \<Longrightarrow> lookup q es' = Some (File c)"
proof (induction q arbitrary: es es')
  case Nil
  then show ?case by simp
next
  case (Cons x xs)
  show ?case
  proof (cases xs)
    case Nil
    with Cons.prems show ?thesis
      by (auto simp add: update_conv')
  next
    case (Cons y ys)
    from Cons.prems have "put (x # y # ys) (File c) es = Some es'"
      unfolding Cons .
    then obtain sub sub' where sub: "map_of es x = Some (Dir sub)"
      and put: "put (y # ys) (File c) sub = Some sub'"
      and es': "es' = AList.update x (Dir sub') es"
      by (rule put_Cons_Cons)
    have "lookup (x # xs) es' = lookup xs sub'"
      using es' by (simp add: update_conv')
    also have "\<dots> = Some (File c)"
      using put Cons.IH [of sub sub'] Cons by simp
    finally show ?thesis .
  qed
qed

lemma run_writeFile_success:
  "run (fs_writeFile q c) s = (Inr u, s') \<Longrightarrow> lookup q (entries s') = Some (File c)"
  by (auto simp add: run_def fs_writeFile_def io_throw_def lookup_put_same
      split: if_splits option.splits node.splits)

lemma generateReleaseReadme_success:
  assumes "run (generateReleaseReadme ext p) s = (Inr u, s')"
  shows "\<exists>v. lookup (releaseDir p @ [''README.md'']) (entries s')
           = Some (File (fill (template ext) (readmeValues ext p v)))"
proof -
  obtain r t where rt:
    "run (io_catch
           (io_bind (fs_readFile [''package.json'']) (\<lambda>packageJson.
              io_return (case parse_version ext packageJson of None \<Rightarrow> ''1.0.0'' | Some v \<Rightarrow> v)))
           (\<lambda>err. io_return ''1.0.0'')) s = (r, t)"
    by (cases "run (io_catch
           (io_bind (fs_readFile [''package.json'']) (\<lambda>packageJson.
              io_return (case parse_version ext packageJson of None \<Rightarrow> ''1.0.0'' | Some v \<Rightarrow> v)))
           (\<lambda>err. io_return ''1.0.0'')) s")
  show ?thesis
  proof (cases r)
    case (Inl e)
    with assms rt show ?thesis
      by (simp add: generateReleaseReadme_def Let_def run_bind [of "io_catch _ _"])
  next
    case (Inr v)
    with assms rt have "run (io_bind
        (fs_writeFile (releaseDir p @ [''README.md'']) (fill (template ext) (readmeValues ext p v)))
        (\<lambda>_. console_log (''  '' @ tick @ '' Generated README.md''))) t = (Inr u, s')"
      by (simp add: generateReleaseReadme_def Let_def run_bind [of "io_catch _ _"])
    then have "run (fs_writeFile (releaseDir p @ [''README.md''])
        (fill (template ext) (readmeValues ext p v))) t = (Inr (), s')"
      by (simp add: run_bind split: prod.splits sum.splits)
    then show ?thesis
      by (blast dest: run_writeFile_success)
  qed
qed

lemma buildPlatform_success_readme:
  assumes "map_of PLATFORMS key = Some p"
    and "run (buildPlatform ext key) s = (Inr u, s')"
  shows "\<exists>v. lookup (releaseDir p @ [''README.md'']) (entries s')
           = Some (File (fill (template ext) (readmeValues ext p v)))"
proof -
  from assms obtain t where "run (generateReleaseReadme ext p) t = (Inr (), s')"
    by (auto simp add: buildPlatform_def platformSteps_def generateReadme_def run_bind
        split: prod.splits sum.splits)
  then show ?thesis
    by (rule generateReleaseReadme_success)
qed












subsection \<open>A missing module\<close>

lemma run_writeFile_release:
  assumes "entries s = AList.update x (Dir R) E" and "denied s = []"
    and "\<And>sub. map_of R nm \<noteq> Some (Dir sub)"
  shows "run (fs_writeFile [x, nm] c) s
           = (Inr (), s\<lparr>entries := AList.update x (Dir (AList.update nm (File c) R)) E\<rparr>)"
proof (cases "map_of R nm")
  case None
  with assms(1,2) show ?thesis
    by (simp add: run_def fs_writeFile_def update_conv')
next
  case (Some n)
  with assms(3) obtain c' where "n = File c'" by (cases n) auto
  with Some assms(1,2) show ?thesis
    by (simp add: run_def fs_writeFile_def update_conv')
qed

lemma run_readFile:
  "lookup q (entries s) = Some (File c) \<Longrightarrow> run (fs_readFile q) s = (Inr c, s)"
  by (simp add: run_def fs_readFile_def io_return_def)

lemma run_readFile_absent:
  "lookup q (entries s) = None \<Longrightarrow> \<not> through_file q (entries s) \<Longrightarrow>
     run (fs_readFile q) s = (Inl (ENOENT q), s)"
  by (simp add: run_def fs_readFile_def io_throw_def missing_def)

lemma run_cleanReleaseDir:
  assumes "releaseDir p = [x]" and "denied s = []"
  shows "run (cleanReleaseDir p) s
           = (Inr (), s\<lparr>entries := AList.update x (Dir []) (AList.delete x (entries s))\<rparr>)"
proof -
  let ?t = "s\<lparr>entries := AList.delete x (entries s)\<rparr>"
  from assms(2) have "refused_below [x] s = None"
    by (simp add: refused_below_def)
  then have rm: "run (removeDir [x]) s = (Inr (), ?t)"
    by (simp add: run_def removeDir_release)
  have "run (ensureDir [x]) ?t = (Inr (), ?t\<lparr>entries := AList.update x (Dir []) (entries ?t)\<rparr>)"
    using assms(2)
    by (simp add: run_def ensureDir_def io_catch_def fs_access_def fs_mkdir_def io_throw_def
        refused_above_def delete_conv')
  with rm assms(1) show ?thesis
    by (simp add: cleanReleaseDir_def run_bind)
qed

lemma run_copyManifest:
  assumes "releaseDir p = [x]" and "x \<noteq> ''src''"
    and "entries s = AList.update x (Dir R) E" and "denied s = []"
    and "lookup (sourceDir CONFIG @ [''manifests'', manifestFile p]) E = Some (File m)"
    and "\<And>sub. map_of R ''manifest.json'' \<noteq> Some (Dir sub)"
  shows "run (copyManifest p) s
           = (Inr (), s\<lparr>entries := AList.update x (Dir (AList.update ''manifest.json'' (File m) R)) E\<rparr>)"
proof -
  from assms(2,3,5) have "lookup (sourceDir CONFIG @ [''manifests'', manifestFile p]) (entries s)
      = Some (File m)"
    by (simp add: CONFIG_def update_conv')
  then have rd: "run (fs_readFile (sourceDir CONFIG @ [''manifests'', manifestFile p])) s = (Inr m, s)"
    by (rule run_readFile)
  have wr: "run (fs_writeFile [x, ''manifest.json''] m) s
      = (Inr (), s\<lparr>entries := AList.update x (Dir (AList.update ''manifest.json'' (File m) R)) E\<rparr>)"
    using assms(3,4,6) by (rule run_writeFile_release)
  from rd wr assms(1) show ?thesis
    by (simp add: copyManifest_def Let_def copyFile_def fs_copyFile_def run_bind)
qed

lemma run_processJsFile:
  assumes "releaseDir p = [x]" and "x \<noteq> ''src''"
    and "entries s = AList.update x (Dir R) E" and "denied s = []"
    and "lookup (sourceDir CONFIG @ [''js'', g]) E = Some (File c)"
    and "protected_text ext p g c = Some ob"
    and "\<And>sub. map_of R g \<noteq> Some (Dir sub)"
  shows "run (processJsFile ext g p) s
           = (Inr (), s\<lparr>entries := AList.update x (Dir (AList.update g (File ob) R)) E\<rparr>)"
proof -
  from assms(2,3,5) have "lookup (sourceDir CONFIG @ [''js'', g]) (entries s) = Some (File c)"
    by (simp add: CONFIG_def update_conv')
  then have rd: "run (fs_readFile (sourceDir CONFIG @ [''js'', g])) s = (Inr c, s)"
    by (rule run_readFile)
  have wr: "run (fs_writeFile [x, g] ob) s
      = (Inr (), s\<lparr>entries := AList.update x (Dir (AList.update g (File ob) R)) E\<rparr>)"
    using assms(3,4,7) by (rule run_writeFile_release)
  from assms(6) obtain code where "minify ext (apiTransform p c) = Minified code"
    and "obfuscate ext (seed ext (releaseDir p @ [g])) code = Inr ob"
    by (auto simp add: protected_text_def split: minify_result.splits sum.splits)
  with rd wr assms(1) show ?thesis
    by (simp add: processJsFile_def Let_def run_bind)
qed

lemma run_processJsFile_absent:
  assumes "lookup (sourceDir CONFIG @ [''js'', f]) (entries s) = None"
    and "\<not> through_file (sourceDir CONFIG @ [''js'', f]) (entries s)"
  shows "run (processJsFile ext f p) s = (Inl (ENOENT (sourceDir CONFIG @ [''js'', f])), s)"
  using run_readFile_absent [OF assms]
  by (simp add: processJsFile_def Let_def run_bind)

lemma run_for_each_stops:
  assumes "run (for_each h pre) s = (Inr (), s1)" and "run (h f) s1 = (Inl e, s2)"
  shows "run (for_each h (pre @ f # post)) s = (Inl e, s2)"
  using assms
proof (induction pre arbitrary: s)
  case Nil
  then show ?case by (simp add: run_bind)
next
  case (Cons g gs)
  obtain r t where rt: "run (h g) s = (r, t)" by (cases "run (h g) s")
  show ?case
  proof (cases r)
    case (Inl e')
    with rt Cons.prems(1) show ?thesis by (simp add: run_bind)
  next
    case (Inr u)
    with rt Cons.prems(1) have "run (for_each h gs) t = (Inr (), s1)"
      by (simp add: run_bind)
    from Cons.IH [OF this Cons.prems(2)] rt Inr show ?thesis
      by (simp add: run_bind)
  qed
qed

lemma run_processJsFiles_loop:
  assumes "releaseDir p = [x]" and "x \<noteq> ''src''"
    and "\<forall>g\<in>set gs. \<exists>c. lookup (sourceDir CONFIG @ [''js'', g]) E = Some (File c)
           \<and> protected_text ext p g c = Some (out g)"
    and "entries s = AList.update x (Dir R) E" and "denied s = []"
    and "\<forall>k sub. map_of R k \<noteq> Some (Dir sub)"
  shows "run (for_each (\<lambda>jsFile. processJsFile ext jsFile p) gs) s
           = (Inr (), s\<lparr>entries :=
                AList.update x (Dir (fold (\<lambda>g. AList.update g (File (out g))) gs R)) E\<rparr>)"
  using assms(3-)
proof (induction gs arbitrary: s R)
  case Nil
  then show ?case by simp
next
  case (Cons g gs)
  from Cons.prems(1) obtain c where c: "lookup (sourceDir CONFIG @ [''js'', g]) E = Some (File c)"
    and ob: "protected_text ext p g c = Some (out g)"
    by auto
  let ?R = "AList.update g (File (out g)) R"
  let ?t = "s\<lparr>entries := AList.update x (Dir ?R) E\<rparr>"
  have step: "run (processJsFile ext g p) s = (Inr (), ?t)"
    using assms(1,2) Cons.prems(2,3) c ob
    by (rule run_processJsFile) (simp add: Cons.prems(4))
  have "run (for_each (\<lambda>jsFile. processJsFile ext jsFile p) gs) ?t
      = (Inr (), ?t\<lparr>entries :=
           AList.update x (Dir (fold (\<lambda>g. AList.update g (File (out g))) gs ?R)) E\<rparr>)"
  proof (rule Cons.IH)
    show "\<forall>g\<in>set gs. \<exists>c. lookup (sourceDir CONFIG @ [''js'', g]) E = Some (File c)
           \<and> protected_text ext p g c = Some (out g)"
      using Cons.prems(1) by simp
    show "entries ?t = AList.update x (Dir ?R) E" by simp
    show "denied ?t = []" using Cons.prems(3) by simp
    show "\<forall>k sub. map_of ?R k \<noteq> Some (Dir sub)"
      using Cons.prems(4) by (simp add: update_conv')
  qed
  with step show ?case
    by (simp add: run_bind)
qed

lemma update_fresh: "k \<notin> fst ` set al \<Longrightarrow> AList.update k v al = al @ [(k, v)]"
  by (induction al) auto

lemma fold_update_fresh:
  "distinct ks \<Longrightarrow> set ks \<inter> fst ` set R = {} \<Longrightarrow>
     fold (\<lambda>g. AList.update g (v g)) ks R = R @ map (\<lambda>g. (g, v g)) ks"
proof (induction ks arbitrary: R)
  case Nil
  then show ?case by simp
next
  case (Cons k ks)
  from Cons.prems have fresh: "k \<notin> fst ` set R" by auto
  have "set ks \<inter> fst ` set (R @ [(k, v k)]) = {}"
    using Cons.prems by auto
  with Cons.IH [of "R @ [(k, v k)]"] Cons.prems(1) fresh show ?case
    by (simp add: update_fresh)
qed

lemma build_all_first_failure:
  assumes "run (buildPlatform ext ''chrome'') s = (Inl e, s')"
  shows "fst (build ext [] s) = 1 \<and> fst (snd (build ext [] s)) = s'"
proof -
  have "run (io_bind (buildPlatform ext ''chrome'') (\<lambda>_. buildPlatform ext ''firefox'')) s
      = (Inl e, s')"
    using assms by (simp add: run_bind)
  then show ?thesis
    by (auto simp add: build_def finish_def run_def split: prod.splits sum.splits)
qed

lemma build_single_first_failure:
  assumes "map_of PLATFORMS key = Some p"
    and "run (buildPlatform ext key) s = (Inl e, s')"
  shows "fst (build ext [key] s) = 1 \<and> fst (snd (build ext [key] s)) = s'"
proof -
  from assms(1) have "key = ''chrome'' \<or> key = ''firefox''"
    by (auto simp add: PLATFORMS_def split: if_splits)
  with assms(2) show ?thesis
    by (auto simp add: build_def toLowerCase_def finish_def run_def split: prod.splits sum.splits)
qed

lemma run_buildPlatform_missing_module:
  assumes "map_of PLATFORMS key = Some p" and "releaseDir p = [x]"
    and "denied s = []"
    and "lookup (sourceDir CONFIG @ [''manifests'', manifestFile p]) (entries s) = Some (File m)"
    and "jsFiles CONFIG = pre @ f # post"
    and "\<forall>g\<in>set pre. \<exists>c. lookup (sourceDir CONFIG @ [''js'', g]) (entries s) = Some (File c)
           \<and> protected_text ext p g c = Some (out g)"
    and "lookup (sourceDir CONFIG @ [''js'', f]) (entries s) = None"
    and "\<not> through_file (sourceDir CONFIG @ [''js'', f]) (entries s)"
  shows "run (buildPlatform ext key) s =
           (Inl (ENOENT (sourceDir CONFIG @ [''js'', f])),
            s\<lparr>entries :=
                AList.update x
                  (Dir ((''manifest.json'', File m) # map (\<lambda>g. (g, File (out g))) pre))
                  (AList.delete x (entries s))\<rparr>)"
proof -
  let ?E = "AList.delete x (entries s)"
  let ?h = "\<lambda>jsFile. processJsFile ext jsFile p"
  from assms(1,2) have x: "x \<noteq> ''src''"
    using releaseDir_single by fastforce
  have src: "lookup (sourceDir CONFIG @ q) ?E = lookup (sourceDir CONFIG @ q) (entries s)"
    "through_file (sourceDir CONFIG @ q) ?E = through_file (sourceDir CONFIG @ q) (entries s)" for q
    using x by (simp_all add: CONFIG_def delete_conv')
  let ?sa = "s\<lparr>entries := AList.update x (Dir []) ?E\<rparr>"
  let ?M = "[(''manifest.json'', File m)]"
  let ?sb = "s\<lparr>entries := AList.update x (Dir ?M) ?E\<rparr>"
  let ?R = "(''manifest.json'', File m) # map (\<lambda>g. (g, File (out g))) pre"
  let ?sc = "s\<lparr>entries := AList.update x (Dir ?R) ?E\<rparr>"
  have clean: "run (cleanReleaseDir p) s = (Inr (), ?sa)"
    using assms(2,3) by (rule run_cleanReleaseDir)
  have "run (copyManifest p) ?sa
      = (Inr (), ?sa\<lparr>entries := AList.update x (Dir (AList.update ''manifest.json'' (File m) [])) ?E\<rparr>)"
    using assms(2) x
  proof (rule run_copyManifest)
    show "entries ?sa = AList.update x (Dir []) ?E" by simp
    show "denied ?sa = []" using assms(3) by simp
    show "lookup (sourceDir CONFIG @ [''manifests'', manifestFile p]) ?E = Some (File m)"
      using assms(4) by (simp only: src)
    show "map_of [] ''manifest.json'' \<noteq> Some (Dir sub)" for sub by simp
  qed
  then have manifest: "run (copyManifest p) ?sa = (Inr (), ?sb)"
    by simp
  have js: "distinct (jsFiles CONFIG)" "''manifest.json'' \<notin> set (jsFiles CONFIG)"
    by (simp_all add: CONFIG_def)
  with assms(5) have pre: "distinct pre" "''manifest.json'' \<notin> set pre"
    by auto
  have A: "run (for_each ?h pre) ?sb
      = (Inr (), ?sb\<lparr>entries :=
           AList.update x (Dir (fold (\<lambda>g. AList.update g (File (out g))) pre ?M)) ?E\<rparr>)"
    using assms(2) x
  proof (rule run_processJsFiles_loop)
    show "\<forall>g\<in>set pre. \<exists>c. lookup (sourceDir CONFIG @ [''js'', g]) ?E = Some (File c)
           \<and> protected_text ext p g c = Some (out g)"
      using assms(6) by (simp only: src)
    show "entries ?sb = AList.update x (Dir ?M) ?E" by simp
    show "denied ?sb = []" using assms(3) by simp
    show "\<forall>k sub. map_of ?M k \<noteq> Some (Dir sub)" by simp
  qed
  have "fold (\<lambda>g. AList.update g (File (out g))) pre ?M = ?M @ map (\<lambda>g. (g, File (out g))) pre"
    using pre by (intro fold_update_fresh) auto
  then have B: "?sb\<lparr>entries :=
           AList.update x (Dir (fold (\<lambda>g. AList.update g (File (out g))) pre ?M)) ?E\<rparr> = ?sc"
    by simp
  have loop: "run (for_each ?h pre) ?sb = (Inr (), ?sc)"
    by (simp only: A B)
  have "lookup (sourceDir CONFIG @ [''js'', f]) (entries ?sc) = None"
    "\<not> through_file (sourceDir CONFIG @ [''js'', f]) (entries ?sc)"
    using assms(7,8) x by (simp_all add: CONFIG_def update_conv' delete_conv')
  then have "run (?h f) ?sc = (Inl (ENOENT (sourceDir CONFIG @ [''js'', f])), ?sc)"
    by (rule run_processJsFile_absent)
  with loop have "run (for_each ?h (pre @ f # post)) ?sb
      = (Inl (ENOENT (sourceDir CONFIG @ [''js'', f])), ?sc)"
    by (rule run_for_each_stops)
  then have "run (processJsFiles ext p) ?sb = (Inl (ENOENT (sourceDir CONFIG @ [''js'', f])), ?sc)"
    by (simp add: processJsFiles_def assms(5) run_bind)
  with clean manifest assms(1) show ?thesis
    by (simp add: buildPlatform_def platformSteps_def run_bind)
qed

text \<open>
  C1: with the second module \<^verbatim>\<open>content.js\<close> absent, the Chrome build fails with
  \<^verbatim>\<open>ENOENT\<close> for that file after it has written the first module into the
  release directory, so not zero module files; and with the selector \<^verbatim>\<open>all\<close> the
  invocation ends there with status 1: Firefox, whose manifest is in place, is not built.
\<close>

theorem missing_module_writes_earlier_modules:
  "result_of (buildPlatform example_ext ''chrome'' missing_module_fs)
     = Inl (ENOENT [''src'', ''js'', ''content.js''])
   \<and> lookup [''chrome_release'', ''background.js'']
         (entries (state_of (buildPlatform example_ext ''chrome'' missing_module_fs)))
       = Some (File ''chrome.a()'')
   \<and> lookup [''src'', ''manifests'', ''firefox.json''] (entries missing_module_fs)
       = Some (File ''mf'')
   \<and> fst (build example_ext [] missing_module_fs) = 1
   \<and> lookup [''firefox_release''] (entries (fst (snd (build example_ext [] missing_module_fs))))
       = None"
  by code_simp

text \<open>
  C1, as amended: if a required module source file is absent and the build gets to it
  (nothing is refused, the manifest is in place, and the modules configured before the
  missing one are in place and pass both protection passes), the platform build fails
  with a not-found condition for that file. The platform's release directory then holds
  the manifest and the protected modules configured before the missing one, and nothing
  for the missing module or any module after it; everything outside that directory is as
  it was. The failure ends the invocation with exit status 1 where the platform build
  stopped: with the selector \<^verbatim>\<open>all\<close> a failure of the first platform means the
  second is not built.
\<close>

theorem missing_module_aborts:
  assumes "map_of PLATFORMS key = Some p" and "releaseDir p = [x]"
    and "denied s = []"
    and "lookup (sourceDir CONFIG @ [''manifests'', manifestFile p]) (entries s) = Some (File m)"
    and "jsFiles CONFIG = pre @ f # post"
    and "\<forall>g\<in>set pre. \<exists>c. lookup (sourceDir CONFIG @ [''js'', g]) (entries s) = Some (File c)
           \<and> protected_text ext p g c = Some (out g)"
    and "lookup (sourceDir CONFIG @ [''js'', f]) (entries s) = None"
    and "\<not> through_file (sourceDir CONFIG @ [''js'', f]) (entries s)"
  shows "run (buildPlatform ext key) s =
           (Inl (ENOENT (sourceDir CONFIG @ [''js'', f])),
            s\<lparr>entries :=
                AList.update x
                  (Dir ((''manifest.json'', File m) # map (\<lambda>g. (g, File (out g))) pre))
                  (AList.delete x (entries s))\<rparr>)
   \<and> fst (build ext [key] s) = 1
   \<and> fst (snd (build ext [key] s)) = snd (run (buildPlatform ext key) s)
   \<and> (key = ''chrome'' \<longrightarrow>
        fst (build ext [] s) = 1
        \<and> fst (snd (build ext [] s)) = snd (run (buildPlatform ext key) s))"
proof -
  note r = run_buildPlatform_missing_module [OF assms]
  have single: "fst (build ext [key] s) = 1 \<and> fst (snd (build ext [key] s))
      = snd (run (buildPlatform ext key) s)"
    using build_single_first_failure [OF assms(1) r] r by simp
  have "fst (build ext [] s) = 1 \<and> fst (snd (build ext [] s))
      = snd (run (buildPlatform ext key) s)" if "key = ''chrome''"
    using build_all_first_failure [of ext s] r that by simp
  with single r show ?thesis
    by blast
qed

theorem missing_module_aborts_witness:
  "run (buildPlatform example_ext ''chrome'') missing_module_fs =
     (Inl (ENOENT [''src'', ''js'', ''content.js'']),
      missing_module_fs\<lparr>entries :=
        entries missing_module_fs
          @ [(''chrome_release'',
              Dir [(''manifest.json'', File ''mc''), (''background.js'', File ''chrome.a()'')])]\<rparr>)
   \<and> fst (build example_ext [''chrome''] missing_module_fs) = 1
   \<and> fst (snd (build example_ext [''chrome''] missing_module_fs))
       = snd (run (buildPlatform example_ext ''chrome'') missing_module_fs)
   \<and> fst (build example_ext [] missing_module_fs) = 1
   \<and> fst (snd (build example_ext [] missing_module_fs))
       = snd (run (buildPlatform example_ext ''chrome'') missing_module_fs)"
proof -
  have h1: "map_of PLATFORMS ''chrome'' = Some chrome_platform"
    by (simp add: PLATFORMS_def)
  have h2: "releaseDir chrome_platform = [''chrome_release'']"
    by (simp add: chrome_platform_def CONFIG_def)
  have h3: "denied missing_module_fs = []"
    by (simp add: missing_module_fs_def)
  have h4: "lookup (sourceDir CONFIG @ [''manifests'', manifestFile chrome_platform])
      (entries missing_module_fs) = Some (File ''mc'')"
    by (simp add: missing_module_fs_def chrome_platform_def CONFIG_def)
  have h5: "jsFiles CONFIG = [''background.js''] @ ''content.js'' # [''injected.js'', ''sidepanel.js'']"
    by (simp add: CONFIG_def)
  have h6: "\<forall>g\<in>set [''background.js''].
      \<exists>c. lookup (sourceDir CONFIG @ [''js'', g]) (entries missing_module_fs) = Some (File c)
        \<and> protected_text example_ext chrome_platform g c = Some ((\<lambda>g. ''chrome.a()'') g)"
    by (simp add: missing_module_fs_def chrome_platform_def CONFIG_def protected_text_def
        example_ext_def chrome_apiTransform_def)
  have h7: "lookup (sourceDir CONFIG @ [''js'', ''content.js'']) (entries missing_module_fs) = None"
    and h8: "\<not> through_file (sourceDir CONFIG @ [''js'', ''content.js'']) (entries missing_module_fs)"
    by (simp_all add: missing_module_fs_def CONFIG_def)
  from missing_module_aborts [OF h1 h2 h3 h4 h5 h6 h7 h8]
  show ?thesis
    by (simp add: CONFIG_def missing_module_fs_def)
qed

subsection \<open>Building twice\<close>

lemma confinedD:
  "confined x m \<Longrightarrow> run m s = (r, t) \<Longrightarrow>
     AList.delete x (entries t) = AList.delete x (entries s) \<and> denied t = denied s"
  by (auto simp add: confined_def dest: spec [of _ s])

lemma confined_unchanged: "(\<And>s. snd (run m s) = s) \<Longrightarrow> confined x m"
  by (simp add: confined_def)

lemma confined_return [simp]: "confined x (io_return a)"
  by (rule confined_unchanged) simp

lemma confined_throw [simp]: "confined x (io_throw e)"
  by (rule confined_unchanged) simp

lemma confined_log [simp]: "confined x (console_log msg)"
  by (rule confined_unchanged) simp

lemma confined_error [simp]: "confined x (console_error l)"
  by (rule confined_unchanged) simp

lemma confined_bind:
  assumes "confined x m" and "\<And>a. confined x (f a)"
  shows "confined x (io_bind m f)"
  unfolding confined_def
proof
  fix s
  obtain r t where rt: "run m s = (r, t)" by (cases "run m s")
  note m = confinedD [OF assms(1) rt]
  show "AList.delete x (entries (snd (run (io_bind m f) s))) = AList.delete x (entries s)
      \<and> denied (snd (run (io_bind m f) s)) = denied s"
  proof (cases r)
    case (Inl e)
    with rt m show ?thesis by (simp add: run_bind)
  next
    case (Inr a)
    obtain r' t' where rt': "run (f a) t = (r', t')" by (cases "run (f a) t")
    from confinedD [OF assms(2) rt'] m rt rt' Inr show ?thesis
      by (simp add: run_bind)
  qed
qed

lemma confined_catch:
  assumes "confined x m" and "\<And>e. confined x (h e)"
  shows "confined x (io_catch m h)"
  unfolding confined_def
proof
  fix s
  obtain r t where rt: "run m s = (r, t)" by (cases "run m s")
  note m = confinedD [OF assms(1) rt]
  show "AList.delete x (entries (snd (run (io_catch m h) s))) = AList.delete x (entries s)
      \<and> denied (snd (run (io_catch m h) s)) = denied s"
  proof (cases r)
    case (Inr a)
    with rt m show ?thesis by (simp add: run_catch)
  next
    case (Inl e)
    obtain r' t' where rt': "run (h e) t = (r', t')" by (cases "run (h e) t")
    from confinedD [OF assms(2) rt'] m rt rt' Inl show ?thesis
      by (simp add: run_catch)
  qed
qed

lemma confined_for_each: "(\<And>a. confined x (f a)) \<Longrightarrow> confined x (for_each f as)"
  by (induction as) (simp_all add: confined_bind)

lemma confined_readFile [simp]: "confined x (fs_readFile q)"
  by (rule confined_unchanged)
    (simp add: run_def fs_readFile_def io_throw_def io_return_def split: option.splits node.splits)

lemma confined_access [simp]: "confined x (fs_access q)"
  by (rule confined_unchanged)
    (simp add: run_def fs_access_def io_throw_def io_return_def split: option.splits)

lemma confined_readdir [simp]: "confined x (fs_readdir q)"
  by (rule confined_unchanged)
    (simp add: run_def fs_readdir_def io_throw_def io_return_def split: option.splits node.splits)

lemma put_top: "put (x # q) n es = Some es' \<Longrightarrow> AList.delete x es' = AList.delete x es"
  by (cases q) (auto simp add: delete_update_same split: option.splits node.splits)

lemma mkdirp_top: "mkdirp (x # q) es = Some es' \<Longrightarrow> AList.delete x es' = AList.delete x es"
  by (auto simp add: delete_update_same split: option.splits node.splits)

lemma del_top: "AList.delete x (del (x # q) es) = AList.delete x es"
  by (cases q) (auto simp add: delete_update_same delete_idem split: option.splits node.splits)

lemma confined_writeFile [simp]: "confined x (fs_writeFile (x # q) c)"
  unfolding confined_def
proof
  fix s
  show "AList.delete x (entries (snd (run (fs_writeFile (x # q) c) s))) = AList.delete x (entries s)
      \<and> denied (snd (run (fs_writeFile (x # q) c) s)) = denied s"
  proof (cases "put (x # q) (File c) (entries s)")
    case None
    then show ?thesis
      by (simp add: run_def fs_writeFile_def io_throw_def split: option.splits node.splits)
  next
    case (Some es')
    from put_top [OF this] Some show ?thesis
      by (simp add: run_def fs_writeFile_def io_throw_def split: option.splits node.splits)
  qed
qed

lemma confined_mkdir [simp]: "confined x (fs_mkdir (x # q))"
  unfolding confined_def
proof
  fix s
  show "AList.delete x (entries (snd (run (fs_mkdir (x # q)) s))) = AList.delete x (entries s)
      \<and> denied (snd (run (fs_mkdir (x # q)) s)) = denied s"
  proof (cases "mkdirp (x # q) (entries s)")
    case None
    then show ?thesis
      by (simp add: run_def fs_mkdir_def io_throw_def io_return_def
          del: mkdirp.simps split: option.splits node.splits)
  next
    case (Some es')
    from mkdirp_top [OF this] Some show ?thesis
      by (simp add: run_def fs_mkdir_def io_throw_def io_return_def
          del: mkdirp.simps split: option.splits node.splits)
  qed
qed

lemma confined_rm [simp]: "confined x (fs_rm (x # q))"
  unfolding confined_def
  using del_top [of x q]
  by (simp add: run_def fs_rm_def io_throw_def io_return_def split: option.splits node.splits)

lemma confined_copyFile [simp]: "confined x (copyFile src (x # q))"
  by (simp add: copyFile_def fs_copyFile_def confined_bind)

lemma confined_copyEntries: "confined x (copyEntries es src (x # q))"
  by (induction es src "x # q" arbitrary: q rule: copyEntries.induct)
    (simp_all add: confined_bind)

lemma confined_copyDir [simp]: "confined x (copyDir src (x # q))"
  by (simp add: copyDir_def confined_bind confined_copyEntries)

lemma confined_removeDir [simp]: "confined x (removeDir (x # q))"
  by (simp add: removeDir_def confined_catch)

lemma confined_ensureDir [simp]: "confined x (ensureDir (x # q))"
  by (simp add: ensureDir_def confined_catch)

lemma confined_processJsFile: "releaseDir p = [x] \<Longrightarrow> confined x (processJsFile ext f p)"
  by (simp add: processJsFile_def Let_def confined_bind
      split: minify_result.splits sum.splits)

lemma confined_generateReleaseReadme:
  "releaseDir p = [x] \<Longrightarrow> confined x (generateReleaseReadme ext p)"
  by (simp add: generateReleaseReadme_def Let_def confined_bind confined_catch)

lemma confined_steps:
  assumes "releaseDir p = [x]"
  shows "confined x (cleanReleaseDir p)" "confined x (copyManifest p)"
    "confined x (processJsFiles ext p)" "confined x (copyCssFiles p)"
    "confined x (copyHtmlFiles p)" "confined x (copyDirectories p)"
    "confined x (generateReadme ext p)"
  using assms
  by (simp_all add: cleanReleaseDir_def copyManifest_def processJsFiles_def
      copyCssFiles_def copyHtmlFiles_def copyDirectories_def generateReadme_def Let_def
      confined_processJsFile confined_generateReleaseReadme
      confined_bind confined_catch confined_for_each)

lemma confined_buildPlatform:
  assumes "map_of PLATFORMS key = Some p" and "releaseDir p = [x]"
  shows "confined x (buildPlatform ext key)"
  using assms(1) confined_steps [OF assms(2)]
  by (simp add: buildPlatform_def platformSteps_def confined_bind)

lemma rebuild_same_start:
  assumes "map_of PLATFORMS key = Some p" and "denied s = []"
    and "run (buildPlatform ext key) s = (r, s1)"
  shows "buildPlatform ext' key s1 = buildPlatform ext' key s"
proof -
  from assms(1) obtain x where x: "releaseDir p = [x]"
    using releaseDir_single by blast
  from confinedD [OF confined_buildPlatform [OF assms(1) x] assms(3)]
  have same: "AList.delete x (entries s1) = AList.delete x (entries s)" "denied s1 = denied s"
    by simp_all
  have "refused_below [x] s = None" "refused_below [x] s1 = None"
    using assms(2) same(2) by (simp_all add: refused_below_def)
  then have "buildPlatform ext' key s
      = buildPlatform ext' key (s\<lparr>entries := AList.delete x (entries s)\<rparr>)"
    and "buildPlatform ext' key s1
      = buildPlatform ext' key (s1\<lparr>entries := AList.delete x (entries s1)\<rparr>)"
    using assms(1) x by (simp_all add: buildPlatform_clean_start [symmetric])
  moreover have "s1\<lparr>entries := AList.delete x (entries s1)\<rparr>
      = s\<lparr>entries := AList.delete x (entries s)\<rparr>"
    using same by simp
  ultimately show ?thesis
    by simp
qed

lemma put_content:
  assumes "put q (File c) es = Some e1"
  shows "\<exists>e2. put q (File c') es = Some e2
           \<and> (\<forall>q'. \<not> prefix q' q \<longrightarrow> lookup q' e1 = lookup q' e2)"
  using assms
proof (induction q arbitrary: es e1)
  case Nil
  then show ?case by simp
next
  case (Cons x xs)
  show ?case
  proof (cases xs)
    case Nil
    have "lookup q' (AList.update x (File c) es) = lookup q' (AList.update x (File c') es)"
      if "\<not> prefix q' [x]" for q'
    proof (cases q')
      case Nil
      with that show ?thesis by simp
    next
      case (Cons z r)
      with that show ?thesis
        by (cases "z = x") (auto simp add: update_conv')
    qed
    with Cons.prems Nil show ?thesis
      by simp
  next
    case (Cons y ys)
    from Cons.prems have "put (x # y # ys) (File c) es = Some e1"
      unfolding Cons .
    then obtain sub sub1 where sub: "map_of es x = Some (Dir sub)"
      and put: "put (y # ys) (File c) sub = Some sub1"
      and e1: "e1 = AList.update x (Dir sub1) es"
      by (rule put_Cons_Cons)
    from Cons.IH [of sub sub1] put Cons obtain sub2
      where put2: "put (y # ys) (File c') sub = Some sub2"
        and same: "\<And>q'. \<not> prefix q' (y # ys) \<Longrightarrow> lookup q' sub1 = lookup q' sub2"
      by auto
    have "lookup q' e1 = lookup q' (AList.update x (Dir sub2) es)"
      if "\<not> prefix q' (x # y # ys)" for q'
    proof (cases q')
      case Nil
      with that show ?thesis by simp
    next
      case c: (Cons z r)
      show ?thesis
      proof (cases "z = x")
        case True
        with that c have "\<not> prefix r (y # ys)" by simp
        from same [OF this] True c e1 show ?thesis
          by (simp add: update_conv')
      next
        case False
        with c e1 show ?thesis
          by (simp add: update_conv')
      qed
    qed
    with sub put2 Cons show ?thesis
      by simp
  qed
qed

lemma same_but_refl [simp]: "same_but q s s"
  by (simp add: same_but_def)

lemma writeFile_content:
  assumes "run (fs_writeFile q c) s = (r, t1)"
  shows "\<exists>t2. run (fs_writeFile q c') s = (r, t2)
           \<and> (case r of
                 Inl e \<Rightarrow> t2 = t1
               | Inr u \<Rightarrow> same_but q t1 t2 \<and> lookup q (entries t1) = Some (File c)
                           \<and> lookup q (entries t2) = Some (File c'))"
proof (cases "put q (File c) (entries s)")
  case None
  then have "put q (File c') (entries s) = None"
    using put_content [of q c' "entries s" _ c] by (cases "put q (File c') (entries s)") auto
  with None assms show ?thesis
    by (auto simp add: run_def fs_writeFile_def io_throw_def
        split: if_splits option.splits node.splits)
next
  case (Some e1)
  from put_content [OF this, of c'] obtain e2 where e2: "put q (File c') (entries s) = Some e2"
    and same: "\<And>q'. \<not> prefix q' q \<Longrightarrow> lookup q' e1 = lookup q' e2"
    by auto
  from Some e2 have "lookup q e1 = Some (File c)" "lookup q e2 = Some (File c')"
    by (simp_all add: lookup_put_same)
  with Some e2 same assms show ?thesis
    by (auto simp add: run_def fs_writeFile_def io_throw_def same_but_def
        split: if_splits option.splits node.splits)
qed

lemma similarD:
  assumes "similar rel m1 m2" and "run m1 s = (r, t1)"
  obtains t2 where "run m2 s = (r, t2)" and "rel r t1 t2"
  using assms unfolding similar_def by blast

lemma similar_bind_same:
  assumes "\<And>a. similar rel (f a) (g a)" and "\<And>e s. rel (Inl e) s s"
  shows "similar rel (io_bind m f) (io_bind m g)"
  unfolding similar_def
proof (intro allI impI)
  fix s r t1
  assume run: "run (io_bind m f) s = (r, t1)"
  obtain r' t where rt: "run m s = (r', t)" by (cases "run m s")
  show "\<exists>t2. run (io_bind m g) s = (r, t2) \<and> rel r t1 t2"
  proof (cases r')
    case (Inl e)
    with run rt assms(2) show ?thesis
      by (auto simp add: run_bind)
  next
    case (Inr a)
    with run rt have "run (f a) t = (r, t1)"
      by (simp add: run_bind)
    with assms(1) [of a] obtain t2 where "run (g a) t = (r, t2)" "rel r t1 t2"
      by (rule similarD)
    with rt Inr show ?thesis
      by (auto simp add: run_bind)
  qed
qed

lemma similar_bind_post:
  assumes "similar rel m1 m2" and "\<And>a s. run (k a) s = (Inr (), s)"
  shows "similar rel (io_bind m1 k) (io_bind m2 k)"
  unfolding similar_def
proof (intro allI impI)
  fix s r t1
  assume run: "run (io_bind m1 k) s = (r, t1)"
  obtain r' t where rt: "run m1 s = (r', t)" by (cases "run m1 s")
  with assms(1) obtain t2 where m2: "run m2 s = (r', t2)" and rel: "rel r' t t2"
    by (rule similarD)
  show "\<exists>t2. run (io_bind m2 k) s = (r, t2) \<and> rel r t1 t2"
  proof (cases r')
    case (Inl e)
    with run rt m2 rel show ?thesis
      by (auto simp add: run_bind)
  next
    case (Inr a)
    with run rt assms(2) have "r = Inr ()" "t1 = t"
      by (simp_all add: run_bind)
    with Inr m2 rel assms(2) show ?thesis
      by (auto simp add: run_bind)
  qed
qed

lemma date_related_failure [simp]: "date_related ext p d (Inl e) s s"
  by (simp add: date_related_def)

lemma generateReleaseReadme_today:
  "similar (date_related ext p d)
     (generateReleaseReadme ext p) (generateReleaseReadme (ext\<lparr>today := d\<rparr>) p)"
  unfolding similar_def
proof (intro allI impI)
  fix s r t1
  let ?V = "io_catch
      (io_bind (fs_readFile [''package.json'']) (\<lambda>packageJson.
         io_return (case parse_version ext packageJson of None \<Rightarrow> ''1.0.0'' | Some v \<Rightarrow> v)))
      (\<lambda>err. io_return ''1.0.0'')"
  let ?q = "releaseDir p @ [''README.md'']"
  let ?c = "\<lambda>e v. fill (template ext) (readmeValues e p v)"
  let ?W = "\<lambda>e v. io_bind (fs_writeFile ?q (?c e v))
      (\<lambda>_. console_log (''  '' @ tick @ '' Generated README.md''))"
  assume run: "run (generateReleaseReadme ext p) s = (r, t1)"
  have g1: "generateReleaseReadme ext p = io_bind ?V (?W ext)"
    by (simp add: generateReleaseReadme_def Let_def)
  have g2: "generateReleaseReadme (ext\<lparr>today := d\<rparr>) p = io_bind ?V (?W (ext\<lparr>today := d\<rparr>))"
    by (simp add: generateReleaseReadme_def Let_def)
  obtain rv tv where rv: "run ?V s = (rv, tv)" by (cases "run ?V s")
  show "\<exists>t2. run (generateReleaseReadme (ext\<lparr>today := d\<rparr>) p) s = (r, t2)
      \<and> date_related ext p d r t1 t2"
  proof (cases rv)
    case (Inl e)
    with run rv show ?thesis
      unfolding g1 g2 by (auto simp add: run_bind)
  next
    case (Inr v)
    with run rv have "run (?W ext v) tv = (r, t1)"
      unfolding g1 by (simp add: run_bind)
    then have w: "run (fs_writeFile ?q (?c ext v)) tv = (r, t1)"
      by (auto simp add: run_bind split: prod.splits sum.splits)
    from writeFile_content [OF this, of "?c (ext\<lparr>today := d\<rparr>) v"]
    obtain t2 where w2: "run (fs_writeFile ?q (?c (ext\<lparr>today := d\<rparr>) v)) tv = (r, t2)"
      and rel: "case r of Inl e \<Rightarrow> t2 = t1
         | Inr u \<Rightarrow> same_but ?q t1 t2 \<and> lookup ?q (entries t1) = Some (File (?c ext v))
             \<and> lookup ?q (entries t2) = Some (File (?c (ext\<lparr>today := d\<rparr>) v))"
      by blast
    from w2 have "run (?W (ext\<lparr>today := d\<rparr>) v) tv = (r, t2)"
      by (auto simp add: run_bind split: sum.splits)
    with rv Inr have "run (generateReleaseReadme (ext\<lparr>today := d\<rparr>) p) s = (r, t2)"
      unfolding g2 by (simp add: run_bind)
    moreover from rel have "date_related ext p d r t1 t2"
      by (auto simp add: date_related_def split: sum.splits)
    ultimately show ?thesis
      by blast
  qed
qed

lemma processJsFiles_today: "processJsFiles (ext\<lparr>today := d\<rparr>) p = processJsFiles ext p"
  by (simp add: processJsFiles_def processJsFile_def cong: minify_result.case_cong)

lemma buildPlatform_today:
  assumes "map_of PLATFORMS key = Some p"
  shows "similar (date_related ext p d)
     (buildPlatform ext key) (buildPlatform (ext\<lparr>today := d\<rparr>) key)"
  using assms
  apply (simp add: buildPlatform_def platformSteps_def generateReadme_def processJsFiles_today)
  apply (intro similar_bind_same similar_bind_post generateReleaseReadme_today)
  apply (simp_all add: run_bind)
  done

lemma readmeValues_today:
  "readmeValues (ext\<lparr>today := d\<rparr>) p v = (readmeValues ext p v)[26 := d]"
  by (simp add: readmeValues_def Let_def)

text \<open>
  C8: build a platform, then build it again from the file system the first build left,
  with the same sources and the same passes (each a function of its input text) and
  another date, in a file system where the operating system refuses nothing. The second
  build ends as the first did; every module file of the release directory is the same,
  byte for byte, and so is every other file and directory, except the release document
  and the directories that hold it; and after a successful build the two documents are
  the same template filled with the same values, except the value at the position of the
  date.
\<close>

theorem rebuild_differs_in_date_only:
  assumes "map_of PLATFORMS key = Some p" and "denied s = []"
    and "run (buildPlatform ext key) s = (r1, s1)"
    and "run (buildPlatform (ext\<lparr>today := d\<rparr>) key) s1 = (r2, s2)"
  shows "r2 = r1
   \<and> denied s2 = denied s1
   \<and> (\<forall>f\<in>set (jsFiles CONFIG).
        lookup (releaseDir p @ [f]) (entries s2) = lookup (releaseDir p @ [f]) (entries s1))
   \<and> (\<forall>q. \<not> prefix q (releaseDir p @ [''README.md'']) \<longrightarrow>
        lookup q (entries s2) = lookup q (entries s1))
   \<and> (r1 = Inr () \<longrightarrow>
        (\<exists>v. lookup (releaseDir p @ [''README.md'']) (entries s1)
               = Some (File (fill (template ext) (readmeValues ext p v)))
           \<and> lookup (releaseDir p @ [''README.md'']) (entries s2)
               = Some (File (fill (template ext) ((readmeValues ext p v)[26 := d])))))"
proof -
  let ?q = "releaseDir p @ [''README.md'']"
  have "buildPlatform (ext\<lparr>today := d\<rparr>) key s1 = buildPlatform (ext\<lparr>today := d\<rparr>) key s"
    using assms(1-3) by (rule rebuild_same_start)
  with assms(4) have second: "run (buildPlatform (ext\<lparr>today := d\<rparr>) key) s = (r2, s2)"
    by (simp add: run_def)
  from buildPlatform_today [OF assms(1), of ext d] assms(3)
  obtain t2 where "run (buildPlatform (ext\<lparr>today := d\<rparr>) key) s = (r1, t2)"
    and "date_related ext p d r1 s1 t2"
    by (rule similarD)
  with second have r: "r2 = r1" and rel: "date_related ext p d r1 s1 s2"
    by simp_all
  have same: "same_but ?q s1 s2"
    using rel by (cases r1) (simp_all add: date_related_def)
  have js: "\<not> prefix (releaseDir p @ [f]) ?q" if "f \<in> set (jsFiles CONFIG)" for f
    using that by (auto simp add: CONFIG_def)
  from same js have modules: "\<forall>f\<in>set (jsFiles CONFIG).
      lookup (releaseDir p @ [f]) (entries s2) = lookup (releaseDir p @ [f]) (entries s1)"
    by (simp add: same_but_def)
  have readme: "\<exists>v. lookup ?q (entries s1) = Some (File (fill (template ext) (readmeValues ext p v)))
      \<and> lookup ?q (entries s2) = Some (File (fill (template ext) ((readmeValues ext p v)[26 := d])))"
    if "r1 = Inr ()"
    using rel that by (simp add: date_related_def readmeValues_today)
  from r same modules readme show ?thesis
    by (simp add: same_but_def)
qed

theorem rebuild_differs_in_date_only_witness:
  "fst (run (buildPlatform example_ext ''chrome'') example_fs) = Inr ()
   \<and> fst (run (buildPlatform (example_ext\<lparr>today := ''2025-06-30''\<rparr>) ''chrome'')
            (snd (run (buildPlatform example_ext ''chrome'') example_fs))) = Inr ()
   \<and> lookup (releaseDir chrome_platform @ [''background.js''])
        (entries (snd (run (buildPlatform (example_ext\<lparr>today := ''2025-06-30''\<rparr>) ''chrome'')
            (snd (run (buildPlatform example_ext ''chrome'') example_fs)))))
       = lookup (releaseDir chrome_platform @ [''background.js''])
           (entries (snd (run (buildPlatform example_ext ''chrome'') example_fs)))
   \<and> (\<exists>v. lookup (releaseDir chrome_platform @ [''README.md''])
              (entries (snd (run (buildPlatform example_ext ''chrome'') example_fs)))
            = Some (File (fill (template example_ext) (readmeValues example_ext chrome_platform v)))
        \<and> lookup (releaseDir chrome_platform @ [''README.md''])
              (entries (snd (run (buildPlatform (example_ext\<lparr>today := ''2025-06-30''\<rparr>) ''chrome'')
                 (snd (run (buildPlatform example_ext ''chrome'') example_fs)))))
            = Some (File (fill (template example_ext)
                ((readmeValues example_ext chrome_platform v)[26 := ''2025-06-30'']))))"
proof -
  let ?first = "run (buildPlatform example_ext ''chrome'') example_fs"
  let ?second = "run (buildPlatform (example_ext\<lparr>today := ''2025-06-30''\<rparr>) ''chrome'') (snd ?first)"
  have h1: "map_of PLATFORMS ''chrome'' = Some chrome_platform"
    by (simp add: PLATFORMS_def)
  have h2: "denied example_fs = []"
    by (simp add: example_fs_def)
  have h3: "?first = (fst ?first, snd ?first)" and h4: "?second = (fst ?second, snd ?second)"
    by simp_all
  have ok: "fst ?first = Inr ()"
    using result_of_run [of "buildPlatform example_ext ''chrome''" example_fs, symmetric]
    by (simp only:) code_simp
  have js: "''background.js'' \<in> set (jsFiles CONFIG)"
    by (simp add: CONFIG_def)
  from rebuild_differs_in_date_only [OF h1 h2 h3 h4] ok js
  show ?thesis
    by simp
qed

end
